theory Spec2Isabelle
  imports Main
begin

section \<open>JavaScript values\<close>

text \<open>
  A JavaScript string is a \<^typ>\<open>string\<close>: every \<^typ>\<open>char\<close> stands for one UTF-16 code
  unit below 256 (the Latin-1 range). An optional field or an argument that may be
  \<^verbatim>\<open>undefined\<close> is a \<^typ>\<open>string option\<close>, with \<^term>\<open>None\<close> for \<^verbatim>\<open>undefined\<close>.
  Numbers (timestamps in milliseconds, counters, configuration values) are integers.
\<close>

definition isWhiteSpace :: "char \<Rightarrow> bool" where
  \<comment> \<open>the class \<^verbatim>\<open>\s\<close> and the characters \<^verbatim>\<open>trim()\<close> removes: TAB, LF, VT, FF, CR, SP, NBSP\<close>
  "isWhiteSpace c = ((of_char c :: nat) \<in> set [9, 10, 11, 12, 13, 32, 160])"

definition isLineTerminator :: "char \<Rightarrow> bool" where
  "isLineTerminator c = ((of_char c :: nat) \<in> set [10, 13])"

definition isDigit :: "char \<Rightarrow> bool" where
  "isDigit c = (let n = (of_char c :: nat) in 48 \<le> n \<and> n \<le> 57)"

definition toLowerCase_char :: "char \<Rightarrow> char" where
  "toLowerCase_char c =
     (let n = (of_char c :: nat)
      in if (65 \<le> n \<and> n \<le> 90) \<or> (192 \<le> n \<and> n \<le> 222 \<and> n \<noteq> 215)
         then char_of (n + 32) else c)"

definition toLowerCase :: "string \<Rightarrow> string" where
  "toLowerCase s = map toLowerCase_char s"

definition canonicalize :: "char \<Rightarrow> char" where
  \<comment> \<open>case folding of the \<^verbatim>\<open>i\<close> flag: the upper-case form of an ASCII letter; a code unit
      from 128 on never folds to an ASCII one, and the patterns below hold ASCII literals only\<close>
  "canonicalize c =
     (let n = (of_char c :: nat)
      in if 97 \<le> n \<and> n \<le> 122 then char_of (n - 32) else c)"

definition trim :: "string \<Rightarrow> string" where
  "trim s = rev (dropWhile isWhiteSpace (rev (dropWhile isWhiteSpace s)))"

definition js_or :: "string option \<Rightarrow> string option \<Rightarrow> string option" where
  \<comment> \<open>\<^verbatim>\<open>a || b\<close>: \<^verbatim>\<open>undefined\<close> and the empty string are falsy\<close>
  "js_or a b = (case a of None \<Rightarrow> b | Some s \<Rightarrow> if s = [] then b else Some s)"

definition js_str :: "string option \<Rightarrow> string" where
  \<comment> \<open>a value inside a template literal\<close>
  "js_str a = (case a of None \<Rightarrow> ''undefined'' | Some s \<Rightarrow> s)"

fun join :: "string \<Rightarrow> string option list \<Rightarrow> string" where
  \<comment> \<open>\<^verbatim>\<open>Array.prototype.join\<close>: an \<^verbatim>\<open>undefined\<close> element is rendered as the empty string\<close>
  "join sep [] = []"
| "join sep [x] = (case x of None \<Rightarrow> [] | Some s \<Rightarrow> s)"
| "join sep (x # y # ys) = (case x of None \<Rightarrow> [] | Some s \<Rightarrow> s) @ sep @ join sep (y # ys)"

section \<open>Regular expressions\<close>

text \<open>
  The fragment of JavaScript regular expressions that \<^verbatim>\<open>MESSAGE_PATTERNS\<close> uses, all
  under the \<^verbatim>\<open>i\<close> flag: literals, \<^verbatim>\<open>\s\<close>, \<^verbatim>\<open>\S\<close>, \<^verbatim>\<open>\d\<close>, \<^verbatim>\<open>.\<close>, the greedy \<^verbatim>\<open>+\<close> on a
  character class, the greedy \<^verbatim>\<open>?\<close>, alternation, and capture groups. The matcher
  returns every way to match a prefix of the input, in the order in which a
  backtracking matcher tries them; the first one is the match JavaScript reports.
\<close>

datatype charclass = Lit char | Space | NonSpace | Digit | Dot

fun class_match :: "charclass \<Rightarrow> char \<Rightarrow> bool" where
  "class_match (Lit p) c = (canonicalize c = canonicalize p)"
| "class_match Space c = isWhiteSpace c"
| "class_match NonSpace c = (\<not> isWhiteSpace c)"
| "class_match Digit c = isDigit c"
| "class_match Dot c = (\<not> isLineTerminator c)"

datatype regex =
    Eps
  | Cls charclass
  | Seq regex regex
  | Alt regex regex
  | Opt regex
  | Plus charclass
  | Cap nat regex

type_synonym captures = "nat \<Rightarrow> string option"

fun plus_match :: "charclass \<Rightarrow> string \<Rightarrow> string list" where
  \<comment> \<open>the remainders after one or more characters of the class, longest match first\<close>
  "plus_match k [] = []"
| "plus_match k (c # cs) = (if class_match k c then plus_match k cs @ [cs] else [])"

fun rmatch :: "regex \<Rightarrow> string \<times> captures \<Rightarrow> (string \<times> captures) list" where
  "rmatch Eps x = [x]"
| "rmatch (Cls k) (s, cp) =
     (case s of [] \<Rightarrow> [] | c # cs \<Rightarrow> if class_match k c then [(cs, cp)] else [])"
| "rmatch (Seq a b) x = concat (map (rmatch b) (rmatch a x))"
| "rmatch (Alt a b) x = rmatch a x @ rmatch b x"
| "rmatch (Opt a) x = rmatch a x @ [x]"
| "rmatch (Plus k) (s, cp) = map (\<lambda>r. (r, cp)) (plus_match k s)"
| "rmatch (Cap i a) (s, cp) =
     map (\<lambda>(r, cp'). (r, cp'(i := Some (take (length s - length r) s)))) (rmatch a (s, cp))"

definition regex_exec :: "regex \<Rightarrow> string \<Rightarrow> captures option" where
  \<comment> \<open>\<^verbatim>\<open>s.match(re)\<close> for a pattern that starts with \<^verbatim>\<open>^\<close>: the match is tried at index 0 only\<close>
  "regex_exec re s =
     (case rmatch re (s, \<lambda>_. None) of [] \<Rightarrow> None | (r, cp) # _ \<Rightarrow> Some cp)"

fun seqs :: "regex list \<Rightarrow> regex" where
  "seqs [] = Eps"
| "seqs (r # rs) = Seq r (seqs rs)"

definition word :: "string \<Rightarrow> regex" where
  "word s = seqs (map (\<lambda>c. Cls (Lit c)) s)"

definition bold :: regex where
  \<comment> \<open>\<^verbatim>\<open>(?:\*\*)?\<close>\<close>
  "bold = Opt (word ''**'')"

section \<open>Protocol messages (types.ts, parser.ts)\<close>

datatype MessageType =
  TASKS | CLAIM | ACK | REJECT | PROGRESS | BLOCKED | READY | AUDIT | MERGED | TIMEOUT
  | RETRY | ABORT

fun type_str :: "MessageType \<Rightarrow> string" where
  "type_str TASKS = ''TASKS''"
| "type_str CLAIM = ''CLAIM''"
| "type_str ACK = ''ACK''"
| "type_str REJECT = ''REJECT''"
| "type_str PROGRESS = ''PROGRESS''"
| "type_str BLOCKED = ''BLOCKED''"
| "type_str READY = ''READY''"
| "type_str AUDIT = ''AUDIT''"
| "type_str MERGED = ''MERGED''"
| "type_str TIMEOUT = ''TIMEOUT''"
| "type_str RETRY = ''RETRY''"
| "type_str ABORT = ''ABORT''"

record ParsedMessage =
  msg_type :: MessageType
  msg_component :: "string option"
  msg_agent :: "string option"
  msg_value :: "string option"

definition MESSAGE_PATTERNS :: "(MessageType \<times> regex) list" where
  "MESSAGE_PATTERNS =
    [(CLAIM, seqs [bold, word ''CLAIM'', Plus Space, Cap 1 (Plus NonSpace), bold]),
     (PROGRESS, seqs [bold, word ''PROGRESS'', Plus Space, Cap 1 (Plus NonSpace), Plus Space,
        Cap 2 (Plus Digit), Opt (word ''%''), bold]),
     (READY, seqs [bold, word ''READY'', Plus Space, Cap 1 (Plus NonSpace),
        Opt (Seq (Plus Space) (Cap 2 (Plus NonSpace))), bold]),
     (BLOCKED, seqs [bold, word ''BLOCKED'', Plus Space, Cap 1 (Plus NonSpace), Plus Space,
        Cap 2 (Plus NonSpace), bold]),
     (ABORT, seqs [bold, word ''ABORT'', Plus Space, Cap 1 (Plus NonSpace),
        Opt (Seq (Plus Space) (Cap 2 (Plus Dot))), bold]),
     (AUDIT, seqs [bold, word ''AUDIT'', Plus Space, Cap 1 (Plus NonSpace), Plus Space,
        Cap 2 (Alt (word ''PASS'') (word ''FAIL'')),
        Opt (Seq (Plus Space) (Cap 3 (Plus Dot))), bold])]"

fun first_match :: "(MessageType \<times> regex) list \<Rightarrow> string \<Rightarrow> string \<Rightarrow> ParsedMessage option" where
  "first_match [] trimmed fromAgent = None"
| "first_match ((t, pattern) # ps) trimmed fromAgent =
     (case regex_exec pattern trimmed of
        Some m \<Rightarrow>
          Some \<lparr>msg_type = t,
                msg_component = map_option toLowerCase (m 1),
                msg_agent = Some fromAgent,
                msg_value = js_or (m 2) (m 3)\<rparr>
      | None \<Rightarrow> first_match ps trimmed fromAgent)"

definition parseMessage :: "string \<Rightarrow> string \<Rightarrow> ParsedMessage option" where
  "parseMessage content fromAgent = first_match MESSAGE_PATTERNS (trim content) fromAgent"

definition arg :: "string option list \<Rightarrow> nat \<Rightarrow> string" where
  \<comment> \<open>\<^verbatim>\<open>${args[i]}\<close>: reading past the end gives \<^verbatim>\<open>undefined\<close>\<close>
  "arg args i = (if i < length args then js_str (args ! i) else ''undefined'')"

fun formatMessage :: "MessageType \<Rightarrow> string option list \<Rightarrow> string" where
  "formatMessage TASKS args =
     ''TASKS '' @ arg args 0 @ [CHR 0x0A] @ ''Available components: '' @ join '', '' (drop 1 args)"
| "formatMessage ACK args = ''ACK '' @ arg args 0 @ '' '' @ arg args 1"
| "formatMessage REJECT args = ''REJECT '' @ arg args 0 @ '' \"'' @ arg args 1 @ ''\"''"
| "formatMessage MERGED args = ''MERGED '' @ arg args 0"
| "formatMessage TIMEOUT args = ''TIMEOUT '' @ arg args 0"
| "formatMessage t args = type_str t @ '' '' @ join '' '' args"

section \<open>Build state (types.ts)\<close>

datatype ComponentStatus = Pending | Claimed | Building | Ready | Auditing | Merged | Failed

fun status_str :: "ComponentStatus \<Rightarrow> string" where
  "status_str Pending = ''pending''"
| "status_str Claimed = ''claimed''"
| "status_str Building = ''building''"
| "status_str Ready = ''ready''"
| "status_str Auditing = ''auditing''"
| "status_str Merged = ''merged''"
| "status_str Failed = ''failed''"

record Component =
  name :: string
  status :: ComponentStatus
  assignee :: "string option"
  dependencies :: "string list"
  prUrl :: "string option"
  claimedAt :: "int option"
  lastProgress :: "int option"
  retryCount :: int

text \<open>
  \<^verbatim>\<open>Map<string, Component>\<close> is an association list in insertion order: \<^verbatim>\<open>set\<close> on a key
  that is present replaces the value where it stands, \<^verbatim>\<open>set\<close> on a new key appends, and
  \<^verbatim>\<open>values()\<close> iterates in list order. \<^verbatim>\<open>get(undefined)\<close> finds nothing, all keys being
  strings.
\<close>

type_synonym ComponentMap = "(string \<times> Component) list"

fun map_set :: "ComponentMap \<Rightarrow> string \<Rightarrow> Component \<Rightarrow> ComponentMap" where
  "map_set [] k v = [(k, v)]"
| "map_set ((k', v') # m) k v = (if k' = k then (k, v) # m else (k', v') # map_set m k v)"

definition map_get :: "ComponentMap \<Rightarrow> string option \<Rightarrow> Component option" where
  "map_get m key = (case key of None \<Rightarrow> None | Some k \<Rightarrow> map_of m k)"

definition map_values :: "ComponentMap \<Rightarrow> Component list" where
  "map_values m = map snd m"

record BuildState =
  specUrl :: string
  components :: ComponentMap
  startedAt :: int

section \<open>The coordinator (coordinator.ts)\<close>

record CoordinatorConfig =
  progressTimeoutMs :: int
  claimExpiryMs :: int
  maxRetries :: int

record PartialConfig =
  opt_progressTimeoutMs :: "int option"
  opt_claimExpiryMs :: "int option"
  opt_maxRetries :: "int option"

definition DEFAULT_CONFIG :: CoordinatorConfig where
  "DEFAULT_CONFIG =
     \<lparr>progressTimeoutMs = 10 * 60 * 1000, claimExpiryMs = 2 * 60 * 1000, maxRetries = 3\<rparr>"

definition merge_config :: "CoordinatorConfig \<Rightarrow> PartialConfig \<Rightarrow> CoordinatorConfig" where
  \<comment> \<open>\<^verbatim>\<open>{ ...DEFAULT_CONFIG, ...config }\<close>, for a \<^verbatim>\<open>config\<close> in which a key is either absent
      (\<^term>\<open>None\<close>) or holds a number; a key present with the value \<^verbatim>\<open>undefined\<close> is not
      modelled\<close>
  "merge_config d c =
     \<lparr>progressTimeoutMs = (case opt_progressTimeoutMs c of None \<Rightarrow> progressTimeoutMs d | Some v \<Rightarrow> v),
      claimExpiryMs = (case opt_claimExpiryMs c of None \<Rightarrow> claimExpiryMs d | Some v \<Rightarrow> v),
      maxRetries = (case opt_maxRetries c of None \<Rightarrow> maxRetries d | Some v \<Rightarrow> v)\<rparr>"

text \<open>
  The object: its build state and configuration, the messages handed to the
  \<^verbatim>\<open>sendMessage\<close> callback so far (oldest first), and the lines written with
  \<^verbatim>\<open>console.log\<close>. \<^verbatim>\<open>Date.now()\<close> is a parameter \<open>now\<close> of every operation that reads it.
\<close>

record Coordinator =
  state :: BuildState
  config :: CoordinatorConfig
  sent :: "string list"
  console :: "string list"

definition sendMessage :: "Coordinator \<Rightarrow> string \<Rightarrow> Coordinator" where
  "sendMessage co m = co\<lparr>sent := sent co @ [m]\<rparr>"

definition put :: "Coordinator \<Rightarrow> string option \<Rightarrow> Component \<Rightarrow> Coordinator" where
  \<comment> \<open>assignments to the fields of the object that \<^verbatim>\<open>get(key)\<close> returned\<close>
  "put co key cmp =
     (case key of
        None \<Rightarrow> co
      | Some k \<Rightarrow> co\<lparr>state := (state co)\<lparr>components := map_set (components (state co)) k cmp\<rparr>\<rparr>)"

definition new_component :: "string \<times> string list \<Rightarrow> Component" where
  "new_component cmp =
     \<lparr>name = fst cmp, status = Pending, assignee = None,
      dependencies = map toLowerCase (snd cmp), prUrl = None, claimedAt = None,
      lastProgress = None, retryCount = 0\<rparr>"

fun init_components :: "ComponentMap \<Rightarrow> (string \<times> string list) list \<Rightarrow> ComponentMap" where
  "init_components m [] = m"
| "init_components m (cmp # rest) =
     init_components (map_set m (toLowerCase (fst cmp)) (new_component cmp)) rest"

definition constructor ::
  "string \<Rightarrow> (string \<times> string list) list \<Rightarrow> PartialConfig \<Rightarrow> int \<Rightarrow> Coordinator" where
  "constructor url comps cfg now =
     \<lparr>state = \<lparr>specUrl = url, components = init_components [] comps, startedAt = now\<rparr>,
      config = merge_config DEFAULT_CONFIG cfg, sent = [], console = []\<rparr>"

fun deps_loop :: "ComponentMap \<Rightarrow> string list \<Rightarrow> bool" where
  "deps_loop m [] = True"
| "deps_loop m (depName # rest) =
     (case map_of m depName of
        None \<Rightarrow> False
      | Some dep \<Rightarrow> if status dep \<noteq> Merged then False else deps_loop m rest)"

definition dependenciesMet :: "Coordinator \<Rightarrow> Component \<Rightarrow> bool" where
  "dependenciesMet co cmp = deps_loop (components (state co)) (dependencies cmp)"

fun available_loop :: "Coordinator \<Rightarrow> Component list \<Rightarrow> Component list \<Rightarrow> Component list" where
  "available_loop co [] result = result"
| "available_loop co (cmp # rest) result =
     available_loop co rest
       (if status cmp = Pending \<and> dependenciesMet co cmp then result @ [cmp] else result)"

definition getAvailableComponents :: "Coordinator \<Rightarrow> Component list" where
  "getAvailableComponents co = available_loop co (map_values (components (state co))) []"

definition broadcastTasks :: "Coordinator \<Rightarrow> Coordinator" where
  "broadcastTasks co =
     sendMessage co
       (formatMessage TASKS
          (Some (specUrl (state co)) # map (\<lambda>c. Some (name c)) (getAvailableComponents co)))"

fun complete_loop :: "Component list \<Rightarrow> bool" where
  "complete_loop [] = True"
| "complete_loop (cmp # rest) = (if status cmp \<noteq> Merged then False else complete_loop rest)"

definition isComplete :: "Coordinator \<Rightarrow> bool" where
  "isComplete co = complete_loop (map_values (components (state co)))"

definition unmet :: "Coordinator \<Rightarrow> Component \<Rightarrow> string list" where
  "unmet co cmp =
     filter (\<lambda>d. case map_of (components (state co)) d of
                    None \<Rightarrow> True
                  | Some dep \<Rightarrow> status dep \<noteq> Merged)
       (dependencies cmp)"

definition handleClaim :: "Coordinator \<Rightarrow> ParsedMessage \<Rightarrow> int \<Rightarrow> Coordinator" where
  "handleClaim co msg now =
     (case map_get (components (state co)) (msg_component msg) of
        None \<Rightarrow>
          sendMessage co (formatMessage REJECT [msg_component msg, Some ''component not found''])
      | Some cmp \<Rightarrow>
          if status cmp \<noteq> Pending then
            sendMessage co
              (formatMessage REJECT
                 [msg_component msg,
                  Some (''already '' @ status_str (status cmp) @ '' by ''
                        @ js_str (js_or (assignee cmp) (Some ''another agent'')))])
          else if \<not> dependenciesMet co cmp then
            sendMessage co
              (formatMessage REJECT
                 [msg_component msg,
                  Some (''dependencies not met: '' @ join '', '' (map Some (unmet co cmp)))])
          else
            sendMessage
              (put co (msg_component msg)
                 (cmp\<lparr>status := Claimed, assignee := msg_agent msg, claimedAt := Some now\<rparr>))
              (formatMessage ACK [msg_component msg, msg_agent msg]))"

definition handleProgress :: "Coordinator \<Rightarrow> ParsedMessage \<Rightarrow> int \<Rightarrow> Coordinator" where
  "handleProgress co msg now =
     (case map_get (components (state co)) (msg_component msg) of
        None \<Rightarrow> co
      | Some cmp \<Rightarrow>
          if assignee cmp \<noteq> msg_agent msg then co
          else put co (msg_component msg) (cmp\<lparr>status := Building, lastProgress := Some now\<rparr>))"

definition handleReady :: "Coordinator \<Rightarrow> ParsedMessage \<Rightarrow> Coordinator" where
  "handleReady co msg =
     (case map_get (components (state co)) (msg_component msg) of
        None \<Rightarrow> co
      | Some cmp \<Rightarrow>
          if assignee cmp \<noteq> msg_agent msg then co
          else put co (msg_component msg) (cmp\<lparr>status := Ready, prUrl := msg_value msg\<rparr>))"

definition handleBlocked :: "Coordinator \<Rightarrow> ParsedMessage \<Rightarrow> Coordinator" where
  "handleBlocked co msg =
     co\<lparr>console := console co @
        [''[Coordinator] '' @ js_str (msg_agent msg) @ '' blocked on '' @ js_str (msg_value msg)
         @ '' for '' @ js_str (msg_component msg)]\<rparr>"

definition handleAbort :: "Coordinator \<Rightarrow> ParsedMessage \<Rightarrow> Coordinator" where
  "handleAbort co msg =
     (case map_get (components (state co)) (msg_component msg) of
        None \<Rightarrow> co
      | Some cmp \<Rightarrow>
          if assignee cmp \<noteq> msg_agent msg then co
          else broadcastTasks
                 (put co (msg_component msg)
                    (cmp\<lparr>status := Pending, assignee := None, claimedAt := None\<rparr>)))"

definition handleAudit :: "Coordinator \<Rightarrow> ParsedMessage \<Rightarrow> Coordinator" where
  "handleAudit co msg =
     (case map_get (components (state co)) (msg_component msg) of
        None \<Rightarrow> co
      | Some cmp \<Rightarrow>
          if msg_value msg = Some ''PASS'' then
            (let co1 = put co (msg_component msg) (cmp\<lparr>status := Merged\<rparr>);
                 co2 = sendMessage co1 (formatMessage MERGED [msg_component msg]);
                 co3 = broadcastTasks co2
             in if isComplete co3
                then sendMessage co3 (''BUILD COMPLETE '' @ specUrl (state co3))
                else co3)
          else
            (let cmp1 = cmp\<lparr>retryCount := retryCount cmp + 1\<rparr>
             in if retryCount cmp1 \<ge> maxRetries (config co) then
                  sendMessage
                    (put co (msg_component msg) (cmp1\<lparr>status := Pending, assignee := None\<rparr>))
                    (formatMessage RETRY [msg_component msg])
                else put co (msg_component msg) (cmp1\<lparr>status := Building\<rparr>)))"

definition handleMessage :: "Coordinator \<Rightarrow> string \<Rightarrow> string \<Rightarrow> int \<Rightarrow> Coordinator" where
  "handleMessage co content fromAgent now =
     (case parseMessage content fromAgent of
        None \<Rightarrow> co
      | Some parsed \<Rightarrow>
          (case msg_type parsed of
             CLAIM \<Rightarrow> handleClaim co parsed now
           | PROGRESS \<Rightarrow> handleProgress co parsed now
           | READY \<Rightarrow> handleReady co parsed
           | BLOCKED \<Rightarrow> handleBlocked co parsed
           | ABORT \<Rightarrow> handleAbort co parsed
           | AUDIT \<Rightarrow> handleAudit co parsed
           | _ \<Rightarrow> co))"

definition check_claim :: "CoordinatorConfig \<Rightarrow> int \<Rightarrow> Component \<Rightarrow> Component \<times> string list" where
  \<comment> \<open>the claim-expiry check of the sweep, for one component; \<^verbatim>\<open>comp.claimedAt\<close> as a
      condition is false for \<^verbatim>\<open>undefined\<close> and for 0\<close>
  "check_claim cfg now cmp =
     (case claimedAt cmp of
        None \<Rightarrow> (cmp, [])
      | Some t \<Rightarrow>
          if status cmp = Claimed \<and> t \<noteq> 0 \<and> now - t > claimExpiryMs cfg then
            (cmp\<lparr>status := Pending, assignee := None, claimedAt := None\<rparr>,
             [formatMessage TIMEOUT [Some (name cmp)]])
          else (cmp, []))"

definition check_progress :: "CoordinatorConfig \<Rightarrow> int \<Rightarrow> Component \<Rightarrow> Component \<times> string list" where
  \<comment> \<open>the progress-timeout check of the sweep, for one component; \<^verbatim>\<open>comp.lastProgress\<close>
      as a condition is false for \<^verbatim>\<open>undefined\<close> and for 0\<close>
  "check_progress cfg now cmp =
     (case lastProgress cmp of
        None \<Rightarrow> (cmp, [])
      | Some t \<Rightarrow>
          if status cmp = Building \<and> t \<noteq> 0 \<and> now - t > progressTimeoutMs cfg then
            (cmp\<lparr>status := Pending, assignee := None, lastProgress := None\<rparr>,
             [formatMessage TIMEOUT [Some (name cmp)]])
          else (cmp, []))"

definition sweep_component :: "CoordinatorConfig \<Rightarrow> int \<Rightarrow> Component \<Rightarrow> Component \<times> string list" where
  \<comment> \<open>the body of the sweep's loop: both checks in turn, the second on the result of the first\<close>
  "sweep_component cfg now cmp =
     (let (c1, m1) = check_claim cfg now cmp;
          (c2, m2) = check_progress cfg now c1
      in (c2, m1 @ m2))"

fun sweep_loop :: "CoordinatorConfig \<Rightarrow> int \<Rightarrow> ComponentMap \<Rightarrow> ComponentMap \<times> string list" where
  "sweep_loop cfg now [] = ([], [])"
| "sweep_loop cfg now ((k, cmp) # rest) =
     (let (cmp', ms) = sweep_component cfg now cmp;
          (rest', ms') = sweep_loop cfg now rest
      in ((k, cmp') # rest', ms @ ms'))"

definition checkTimeouts :: "Coordinator \<Rightarrow> int \<Rightarrow> Coordinator" where
  "checkTimeouts co now =
     (let (m, ms) = sweep_loop (config co) now (components (state co))
      in co\<lparr>state := (state co)\<lparr>components := m\<rparr>, sent := sent co @ ms\<rparr>)"

text \<open>
  The calls a client can make on a coordinator, each with the clock reading it sees, and
  the state after a sequence of them.
\<close>

datatype Event = Message string string int | Sweep int | Broadcast

fun step :: "Coordinator \<Rightarrow> Event \<Rightarrow> Coordinator" where
  "step co (Message content fromAgent now) = handleMessage co content fromAgent now"
| "step co (Sweep now) = checkTimeouts co now"
| "step co Broadcast = broadcastTasks co"

definition run :: "Coordinator \<Rightarrow> Event list \<Rightarrow> Coordinator" where
  "run co evs = foldl step co evs"

section \<open>An example build\<close>

text \<open>
  Three components: \<open>Core\<close> without dependencies, \<open>Api\<close> depending on \<open>Core\<close>, and
  \<open>Ghost\<close> depending on a name that no component has. Default configuration, created at
  time 1000.
\<close>

definition no_overrides :: PartialConfig where
  "no_overrides =
     \<lparr>opt_progressTimeoutMs = None, opt_claimExpiryMs = None, opt_maxRetries = None\<rparr>"

definition demo :: Coordinator where
  "demo =
     constructor ''spec'' [(''Core'', []), (''Api'', [''Core'']), (''Ghost'', [''Nowhere''])]
       no_overrides 1000"

definition claim_msg :: "string \<Rightarrow> string \<Rightarrow> ParsedMessage" where
  "claim_msg c a =
     \<lparr>msg_type = CLAIM, msg_component = Some c, msg_agent = Some a, msg_value = None\<rparr>"

definition audit_msg :: "string \<Rightarrow> string \<Rightarrow> string \<Rightarrow> ParsedMessage" where
  "audit_msg c a verdict =
     \<lparr>msg_type = AUDIT, msg_component = Some c, msg_agent = Some a, msg_value = Some verdict\<rparr>"

definition abort_msg :: "string \<Rightarrow> string \<Rightarrow> ParsedMessage" where
  "abort_msg c a =
     \<lparr>msg_type = ABORT, msg_component = Some c, msg_agent = Some a, msg_value = None\<rparr>"

definition pending_component :: "string \<Rightarrow> string list \<Rightarrow> Component" where
  "pending_component n ds =
     \<lparr>name = n, status = Pending, assignee = None, dependencies = ds, prUrl = None,
      claimedAt = None, lastProgress = None, retryCount = 0\<rparr>"

section \<open>Reading the state\<close>

definition getState :: "Coordinator \<Rightarrow> BuildState" where
  "getState co = state co"

definition component_of :: "Coordinator \<Rightarrow> string \<Rightarrow> Component option" where
  \<comment> \<open>\<^verbatim>\<open>getState().components.get(k)\<close>\<close>
  "component_of co k = map_of (components (getState co)) k"

text \<open>Predicates that the proofs below carry along a sequence of calls.\<close>

definition lifecycle_ok :: "Component \<Rightarrow> bool" where
  \<comment> \<open>what every operation keeps true of every component\<close>
  "lifecycle_ok c =
     (status c \<noteq> Failed \<and> status c \<noteq> Auditing \<and>
      (status c = Pending \<longrightarrow> assignee c = None) \<and>
      (status c = Claimed \<or> status c = Ready \<longrightarrow> assignee c \<noteq> None))"

definition all_ok :: "Coordinator \<Rightarrow> bool" where
  "all_ok co = (\<forall>c \<in> set (map_values (components (state co))). lifecycle_ok c)"

definition rc_le :: "Coordinator \<Rightarrow> Coordinator \<Rightarrow> bool" where
  \<comment> \<open>every component is still there, with a retry count at least as large\<close>
  "rc_le co co' =
     (\<forall>k c. map_of (components (state co)) k = Some c \<longrightarrow>
        (\<exists>c'. map_of (components (state co')) k = Some c' \<and> retryCount c \<le> retryCount c'))"

definition layout :: "Coordinator \<Rightarrow> (string \<times> string) list" where
  \<comment> \<open>the keys of the registry with the display names, in iteration order\<close>
  "layout co = map (\<lambda>(k, c). (k, name c)) (components (state co))"

definition demo4 :: Coordinator where
  \<comment> \<open>a second example: \<open>Api\<close> and \<open>Cli\<close> both depend on \<open>Core\<close>\<close>
  "demo4 =
     constructor ''spec''
       [(''Core'', []), (''Api'', [''Core'']), (''Cli'', [''Core'']), (''Ghost'', [''Nowhere''])]
       no_overrides 1000"

section \<open>Basic facts\<close>

lemma js_str_Some: "js_str (Some s) = s"
  by (simp add: js_str_def)

lemma arg_simps: "arg (a # as) 0 = js_str a" "arg (a # b # bs) (Suc 0) = js_str b"
  by (simp_all add: arg_def)

lemma map_of_map_set: "map_of (map_set m k v) = (map_of m)(k \<mapsto> v)"
  by (induction m k v rule: map_set.induct) (auto simp: fun_eq_iff)

lemma keys_map_set: "map_of m k = Some v' \<Longrightarrow> map fst (map_set m k v) = map fst m"
  by (induction m k v rule: map_set.induct) (auto split: if_splits)

lemma set_map_set: "set (map_set m k v) \<subseteq> insert (k, v) (set m)"
  by (induction m k v rule: map_set.induct) auto

lemma map_set_fresh: "k \<notin> fst ` set m \<Longrightarrow> map_set m k v = m @ [(k, v)]"
  by (induction m k v rule: map_set.induct) auto

lemma deps_loop_iff:
  "deps_loop m ds \<longleftrightarrow> (\<forall>d \<in> set ds. \<exists>dep. map_of m d = Some dep \<and> status dep = Merged)"
  by (induction ds) (auto split: option.splits)

lemma available_loop_filter:
  "available_loop co cs acc = acc @ filter (\<lambda>c. status c = Pending \<and> dependenciesMet co c) cs"
  by (induction cs arbitrary: acc) auto

lemma init_components_distinct:
  "distinct (map (\<lambda>c. toLowerCase (fst c)) comps) \<Longrightarrow>
   (\<forall>c \<in> set comps. toLowerCase (fst c) \<notin> fst ` set m) \<Longrightarrow>
   init_components m comps = m @ map (\<lambda>c. (toLowerCase (fst c), new_component c)) comps"
proof (induction comps arbitrary: m)
  case Nil
  then show ?case by simp
next
  case (Cons c comps)
  have fresh: "toLowerCase (fst c) \<notin> fst ` set m"
    using Cons.prems(2) by simp
  have first: "map_set m (toLowerCase (fst c)) (new_component c) =
      m @ [(toLowerCase (fst c), new_component c)]"
    using fresh by (rule map_set_fresh)
  have "init_components (m @ [(toLowerCase (fst c), new_component c)]) comps =
        (m @ [(toLowerCase (fst c), new_component c)]) @
        map (\<lambda>c. (toLowerCase (fst c), new_component c)) comps"
    using Cons.prems by (intro Cons.IH) (auto simp: image_iff)
  then show ?case by (simp add: first)
qed

lemma demo_components:
  "components (state demo) =
     [(''core'', pending_component ''Core'' []),
      (''api'', pending_component ''Api'' [''core'']),
      (''ghost'', pending_component ''Ghost'' [''nowhere''])]"
  by code_simp

section \<open>CLAIM\<close>

text \<open>
  C1. A CLAIM event is handled by \<open>handleClaim\<close>, which sends exactly one message in
  every case and, in this order of precedence: for a component that does not exist, a
  REJECT with reason "component not found"; for a component that is not pending, a
  REJECT with "already <status> by <assignee>" (the words "another agent" standing in
  when no assignee is recorded); for a component with a dependency that is missing or
  not merged, a REJECT listing the unmet dependency names; otherwise it sets the status
  to claimed, the assignee to the sender and claimedAt to the current time, leaves every
  other component and the order of the registry alone, and sends an ACK naming the
  component and the sender. The three rejections leave the build state unchanged.
\<close>

theorem claim_outcome:
  "(parseMessage content fromAgent = Some msg \<and> msg_type msg = CLAIM \<longrightarrow>
      handleMessage co content fromAgent now = handleClaim co msg now)
   \<and> (map_get (components (state co)) (msg_component msg) = None \<longrightarrow>
      state (handleClaim co msg now) = state co \<and>
      sent (handleClaim co msg now) =
        sent co @ [''REJECT '' @ js_str (msg_component msg) @ '' \"component not found\"''])
   \<and> (map_get (components (state co)) (msg_component msg) = Some cmp \<and> status cmp \<noteq> Pending \<longrightarrow>
      state (handleClaim co msg now) = state co \<and>
      sent (handleClaim co msg now) =
        sent co @ [''REJECT '' @ js_str (msg_component msg) @ '' \"already '' @ status_str (status cmp)
                   @ '' by '' @ (case assignee cmp of None \<Rightarrow> ''another agent''
                                 | Some a \<Rightarrow> if a = [] then ''another agent'' else a) @ ''\"''])
   \<and> (map_get (components (state co)) (msg_component msg) = Some cmp \<and> status cmp = Pending \<and>
       \<not> (\<forall>d \<in> set (dependencies cmp).
             \<exists>dep. map_of (components (state co)) d = Some dep \<and> status dep = Merged) \<longrightarrow>
      state (handleClaim co msg now) = state co \<and>
      sent (handleClaim co msg now) =
        sent co @ [''REJECT '' @ js_str (msg_component msg) @ '' \"dependencies not met: ''
                   @ join '', '' (map Some (filter
                        (\<lambda>d. \<not> (\<exists>dep. map_of (components (state co)) d = Some dep \<and> status dep = Merged))
                        (dependencies cmp))) @ ''\"''])
   \<and> (msg_component msg = Some k \<and> map_of (components (state co)) k = Some cmp \<and> status cmp = Pending \<and>
       (\<forall>d \<in> set (dependencies cmp).
             \<exists>dep. map_of (components (state co)) d = Some dep \<and> status dep = Merged) \<longrightarrow>
      map_of (components (state (handleClaim co msg now))) =
        (map_of (components (state co)))
          (k \<mapsto> cmp\<lparr>status := Claimed, assignee := msg_agent msg, claimedAt := Some now\<rparr>) \<and>
      map fst (components (state (handleClaim co msg now))) = map fst (components (state co)) \<and>
      sent (handleClaim co msg now) = sent co @ [''ACK '' @ k @ '' '' @ js_str (msg_agent msg)])
   \<and> (\<exists>m. sent (handleClaim co msg now) = sent co @ [m])"
proof -
  have unmet_eq: "unmet co c =
      filter (\<lambda>d. \<not> (\<exists>dep. map_of (components (state co)) d = Some dep \<and> status dep = Merged))
        (dependencies c)" for c
    unfolding unmet_def by (rule filter_cong) (auto split: option.splits)
  show ?thesis
    apply (intro conjI impI)
    subgoal by (simp add: handleMessage_def)
    subgoal by (simp add: handleClaim_def sendMessage_def)
    subgoal by (simp add: handleClaim_def sendMessage_def arg_simps js_str_Some)
    subgoal by (simp add: handleClaim_def sendMessage_def)
    subgoal by (simp add: handleClaim_def sendMessage_def arg_simps js_str_Some js_str_def js_or_def
          split: option.splits)
    subgoal by (simp add: handleClaim_def sendMessage_def dependenciesMet_def deps_loop_iff)
    subgoal by (simp add: handleClaim_def sendMessage_def dependenciesMet_def deps_loop_iff
          arg_simps js_str_Some js_str_def unmet_eq)
    subgoal by (simp add: handleClaim_def sendMessage_def dependenciesMet_def deps_loop_iff
          put_def map_get_def map_of_map_set)
    subgoal by (simp add: handleClaim_def sendMessage_def dependenciesMet_def deps_loop_iff
          put_def map_get_def keys_map_set)
    subgoal by (simp add: handleClaim_def sendMessage_def dependenciesMet_def deps_loop_iff
          put_def map_get_def arg_simps js_str_Some js_str_def)
    subgoal by (cases "msg_component msg")
       (auto simp: handleClaim_def sendMessage_def put_def map_get_def split: option.splits)
    done
qed

lemma sent_demo: "sent demo = []"
  by code_simp

theorem claim_outcome_witness:
  "handleMessage demo ''CLAIM Core'' ''@ann'' 1001 = handleClaim demo (claim_msg ''core'' ''@ann'') 1001
   \<and> sent (handleClaim demo (claim_msg ''zzz'' ''@ann'') 1001) = [''REJECT zzz \"component not found\"'']
   \<and> sent (handleClaim (handleClaim demo (claim_msg ''core'' ''@ann'') 1001) (claim_msg ''core'' ''@bob'') 1002)
       = [''ACK core @ann'', ''REJECT core \"already claimed by @ann\"'']
   \<and> sent (handleClaim demo (claim_msg ''api'' ''@bob'') 1001) = [''REJECT api \"dependencies not met: core\"'']
   \<and> map_of (components (state (handleClaim demo (claim_msg ''core'' ''@ann'') 1001))) ''core''
       = Some ((pending_component ''Core'' [])\<lparr>status := Claimed, assignee := Some ''@ann'', claimedAt := Some 1001\<rparr>)"
proof -
  let ?c1 = "handleClaim demo (claim_msg ''core'' ''@ann'') 1001"
  let ?core1 = "(pending_component ''Core'' [])\<lparr>status := Claimed, assignee := Some ''@ann'', claimedAt := Some 1001\<rparr>"
  have p: "parseMessage ''CLAIM Core'' ''@ann'' = Some (claim_msg ''core'' ''@ann'')"
    by code_simp
  have a: "handleMessage demo ''CLAIM Core'' ''@ann'' 1001 = ?c1"
    using claim_outcome[of "''CLAIM Core''" "''@ann''" "claim_msg ''core'' ''@ann''" demo 1001] p
    by (simp add: claim_msg_def)
  have b: "sent (handleClaim demo (claim_msg ''zzz'' ''@ann'') 1001) = [''REJECT zzz \"component not found\"'']"
    using claim_outcome[of _ _ "claim_msg ''zzz'' ''@ann''" demo 1001]
    by (simp add: claim_msg_def map_get_def demo_components sent_demo js_str_Some)
  have e: "map_of (components (state ?c1)) = (map_of (components (state demo)))(''core'' \<mapsto> ?core1)
      \<and> sent ?c1 = [''ACK core @ann'']"
    using claim_outcome[of _ _ "claim_msg ''core'' ''@ann''" demo 1001 "pending_component ''Core'' []" "''core''"]
    by (simp add: claim_msg_def map_get_def demo_components sent_demo js_str_Some pending_component_def)
  have c: "sent (handleClaim ?c1 (claim_msg ''core'' ''@bob'') 1002) =
      [''ACK core @ann'', ''REJECT core \"already claimed by @ann\"'']"
    using claim_outcome[of _ _ "claim_msg ''core'' ''@bob''" ?c1 1002 ?core1] e
    by (simp add: claim_msg_def map_get_def js_str_Some pending_component_def)
  have d: "sent (handleClaim demo (claim_msg ''api'' ''@bob'') 1001) =
      [''REJECT api \"dependencies not met: core\"'']"
    using claim_outcome[of _ _ "claim_msg ''api'' ''@bob''" demo 1001 "pending_component ''Api'' [''core'']"]
    by (simp add: claim_msg_def map_get_def demo_components sent_demo js_str_Some pending_component_def)
  show ?thesis using a b c d e by simp
qed

section \<open>Lifecycle invariants\<close>

lemma state_sendMessage: "state (sendMessage co m) = state co"
  by (simp add: sendMessage_def)

lemma config_sendMessage: "config (sendMessage co m) = config co"
  by (simp add: sendMessage_def)

lemma state_broadcastTasks: "state (broadcastTasks co) = state co"
  by (simp add: broadcastTasks_def state_sendMessage)

lemma components_put:
  "components (state (put co key c)) =
     (case key of None \<Rightarrow> components (state co) | Some k \<Rightarrow> map_set (components (state co)) k c)"
  by (simp add: put_def split: option.splits)

lemma config_put: "config (put co key c) = config co"
  by (simp add: put_def split: option.splits)

lemma values_put: "set (map_values (components (state (put co key c)))) \<subseteq>
    insert c (set (map_values (components (state co))))"
proof (cases key)
  case None
  then show ?thesis by (auto simp: components_put)
next
  case (Some k)
  have "snd ` set (map_set (components (state co)) k c) \<subseteq>
        snd ` insert (k, c) (set (components (state co)))"
    by (rule image_mono) (rule set_map_set)
  then show ?thesis using Some by (simp add: components_put map_values_def)
qed

lemma map_get_mem: "map_get m key = Some c \<Longrightarrow> c \<in> set (map_values m)"
  by (cases key) (auto simp: map_get_def map_values_def dest!: map_of_SomeD intro: rev_image_eqI)

lemma all_ok_put: "all_ok co \<Longrightarrow> lifecycle_ok c \<Longrightarrow> all_ok (put co key c)"
  using values_put[of co key c] by (auto simp: all_ok_def)

lemma all_ok_state: "state co' = state co \<Longrightarrow> all_ok co' = all_ok co"
  by (simp add: all_ok_def)

lemma all_ok_get: "all_ok co \<Longrightarrow> map_get (components (state co)) key = Some c \<Longrightarrow> lifecycle_ok c"
  by (auto simp: all_ok_def dest: map_get_mem)

lemma handleClaim_ok:
  assumes "all_ok co" and "msg_agent msg \<noteq> None"
  shows "all_ok (handleClaim co msg now)"
proof (cases "map_get (components (state co)) (msg_component msg)")
  case None
  then show ?thesis using assms
    by (simp add: handleClaim_def all_ok_state[OF state_sendMessage])
next
  case (Some c)
  have "lifecycle_ok (c\<lparr>status := Claimed, assignee := msg_agent msg, claimedAt := Some now\<rparr>)"
    using assms(2) by (simp add: lifecycle_ok_def)
  then show ?thesis using Some assms(1)
    by (simp add: handleClaim_def all_ok_state[OF state_sendMessage] all_ok_put)
qed

lemma handleProgress_ok:
  assumes "all_ok co" and "msg_agent msg \<noteq> None"
  shows "all_ok (handleProgress co msg now)"
proof (cases "map_get (components (state co)) (msg_component msg)")
  case None
  then show ?thesis using assms by (simp add: handleProgress_def)
next
  case (Some c)
  have "lifecycle_ok (c\<lparr>status := Building, lastProgress := Some now\<rparr>)"
    by (simp add: lifecycle_ok_def)
  then show ?thesis using Some assms(1)
    by (simp add: handleProgress_def all_ok_put)
qed

lemma handleReady_ok:
  assumes "all_ok co" and "msg_agent msg \<noteq> None"
  shows "all_ok (handleReady co msg)"
proof (cases "map_get (components (state co)) (msg_component msg)")
  case None
  then show ?thesis using assms by (simp add: handleReady_def)
next
  case (Some c)
  have "assignee c = msg_agent msg \<Longrightarrow> lifecycle_ok (c\<lparr>status := Ready, prUrl := msg_value msg\<rparr>)"
    using assms(2) by (simp add: lifecycle_ok_def)
  then show ?thesis using Some assms(1)
    by (simp add: handleReady_def all_ok_put)
qed

lemma handleBlocked_ok: "all_ok co \<Longrightarrow> all_ok (handleBlocked co msg)"
  by (simp add: handleBlocked_def all_ok_def)

lemma handleAbort_ok:
  assumes "all_ok co"
  shows "all_ok (handleAbort co msg)"
proof (cases "map_get (components (state co)) (msg_component msg)")
  case None
  then show ?thesis using assms by (simp add: handleAbort_def)
next
  case (Some c)
  have "lifecycle_ok (c\<lparr>status := Pending, assignee := None, claimedAt := None\<rparr>)"
    by (simp add: lifecycle_ok_def)
  then show ?thesis using Some assms(1)
    by (simp add: handleAbort_def all_ok_state[OF state_broadcastTasks] all_ok_put)
qed

lemma handleAudit_ok:
  assumes "all_ok co"
  shows "all_ok (handleAudit co msg)"
proof (cases "map_get (components (state co)) (msg_component msg)")
  case None
  then show ?thesis using assms by (simp add: handleAudit_def)
next
  case (Some c)
  have a: "lifecycle_ok (c\<lparr>status := Merged\<rparr>)"
    by (simp add: lifecycle_ok_def)
  have b: "lifecycle_ok (c\<lparr>retryCount := retryCount c + 1, status := Pending, assignee := None\<rparr>)"
    by (simp add: lifecycle_ok_def)
  have c: "lifecycle_ok (c\<lparr>retryCount := retryCount c + 1, status := Building\<rparr>)"
    by (simp add: lifecycle_ok_def)
  show ?thesis using Some assms a b c
    by (simp add: handleAudit_def Let_def all_ok_state[OF state_sendMessage]
        all_ok_state[OF state_broadcastTasks] all_ok_put)
qed

lemma first_match_agent: "first_match ps s a = Some p \<Longrightarrow> msg_agent p = Some a"
  by (induction ps s a rule: first_match.induct) (auto split: option.splits)

lemma parseMessage_agent: "parseMessage content a = Some p \<Longrightarrow> msg_agent p = Some a"
  unfolding parseMessage_def by (rule first_match_agent)

lemma handleMessage_ok:
  assumes "all_ok co"
  shows "all_ok (handleMessage co content a now)"
proof (cases "parseMessage content a")
  case None
  then show ?thesis using assms by (simp add: handleMessage_def)
next
  case (Some p)
  then have "msg_agent p \<noteq> None" by (simp add: parseMessage_agent)
  then show ?thesis using Some assms
    by (cases "msg_type p")
       (simp_all add: handleMessage_def handleClaim_ok handleProgress_ok handleReady_ok
          handleBlocked_ok handleAbort_ok handleAudit_ok)
qed

lemma check_claim_ok: "lifecycle_ok c \<Longrightarrow> lifecycle_ok (fst (check_claim cfg now c))"
  by (simp add: check_claim_def lifecycle_ok_def split: option.splits)

lemma check_progress_ok: "lifecycle_ok c \<Longrightarrow> lifecycle_ok (fst (check_progress cfg now c))"
  by (simp add: check_progress_def lifecycle_ok_def split: option.splits)

lemma fst_sweep_component:
  "fst (sweep_component cfg now c) = fst (check_progress cfg now (fst (check_claim cfg now c)))"
  by (simp add: sweep_component_def split: prod.splits)

lemma snd_sweep_component:
  "snd (sweep_component cfg now c) =
     snd (check_claim cfg now c) @ snd (check_progress cfg now (fst (check_claim cfg now c)))"
  by (simp add: sweep_component_def split: prod.splits)

lemma sweep_component_ok: "lifecycle_ok c \<Longrightarrow> lifecycle_ok (fst (sweep_component cfg now c))"
  by (simp add: fst_sweep_component check_claim_ok check_progress_ok)

lemma fst_sweep_loop:
  "fst (sweep_loop cfg now m) = map (\<lambda>(k, c). (k, fst (sweep_component cfg now c))) m"
  by (induction m) (auto split: prod.splits)

lemma snd_sweep_loop:
  "snd (sweep_loop cfg now m) = concat (map (\<lambda>(k, c). snd (sweep_component cfg now c)) m)"
  by (induction m) (auto split: prod.splits)

lemma components_checkTimeouts:
  "components (state (checkTimeouts co now)) =
     map (\<lambda>(k, c). (k, fst (sweep_component (config co) now c))) (components (state co))"
  by (simp add: checkTimeouts_def fst_sweep_loop[symmetric] split: prod.splits)

lemma sent_checkTimeouts:
  "sent (checkTimeouts co now) =
     sent co @ concat (map (\<lambda>(k, c). snd (sweep_component (config co) now c)) (components (state co)))"
  by (simp add: checkTimeouts_def snd_sweep_loop[symmetric] split: prod.splits)

lemma checkTimeouts_ok: "all_ok co \<Longrightarrow> all_ok (checkTimeouts co now)"
  by (auto simp: all_ok_def components_checkTimeouts map_values_def sweep_component_ok)

lemma step_ok: "all_ok co \<Longrightarrow> all_ok (step co e)"
  by (cases e) (simp_all add: handleMessage_ok checkTimeouts_ok all_ok_state[OF state_broadcastTasks])

lemma run_ok: "all_ok co \<Longrightarrow> all_ok (run co evs)"
  unfolding run_def by (induction evs arbitrary: co) (simp_all add: step_ok)

lemma init_components_set:
  "set (init_components m comps) \<subseteq>
     set m \<union> (\<lambda>c. (toLowerCase (fst c), new_component c)) ` set comps"
proof (induction comps arbitrary: m)
  case Nil
  then show ?case by simp
next
  case (Cons c comps)
  show ?case
    using Cons.IH[of "map_set m (toLowerCase (fst c)) (new_component c)"]
      set_map_set[of m "toLowerCase (fst c)" "new_component c"]
    by auto
qed

lemma constructor_ok: "all_ok (constructor url comps cfg t0)"
  using init_components_set[of "[]" comps]
  by (auto simp: all_ok_def constructor_def map_values_def lifecycle_ok_def new_component_def)

lemma reachable_ok: "all_ok (run (constructor url comps cfg t0) evs)"
  by (rule run_ok) (rule constructor_ok)

section \<open>Assignee and status\<close>

text \<open>
  C2, as amended. In every state reached from construction by any sequence of messages,
  sweeps and broadcasts, for every component: a pending component has no assignee; a
  claimed or ready component has one; and a component with an assignee is claimed,
  building, ready or merged. (A merged component keeps the assignee it had, and a
  building component may have none: AUDIT applies to a component in any status.)
\<close>

theorem assignee_by_status:
  "\<forall>c \<in> set (map_values (components (state (run (constructor url comps cfg t0) evs)))).
     (status c = Pending \<longrightarrow> assignee c = None) \<and>
     (status c = Claimed \<or> status c = Ready \<longrightarrow> assignee c \<noteq> None) \<and>
     (assignee c \<noteq> None \<longrightarrow> status c \<in> {Claimed, Building, Ready, Merged})"
proof
  fix c
  assume "c \<in> set (map_values (components (state (run (constructor url comps cfg t0) evs))))"
  then have "lifecycle_ok c"
    using reachable_ok[of url comps cfg t0 evs] by (simp add: all_ok_def)
  then show "(status c = Pending \<longrightarrow> assignee c = None) \<and>
     (status c = Claimed \<or> status c = Ready \<longrightarrow> assignee c \<noteq> None) \<and>
     (assignee c \<noteq> None \<longrightarrow> status c \<in> {Claimed, Building, Ready, Merged})"
    by (cases "status c") (simp_all add: lifecycle_ok_def)
qed

theorem assignee_by_status_witness:
  "(\<exists>c. component_of (run demo [Message ''CLAIM core'' ''@ann'' 1001]) ''core'' = Some c \<and>
        status c = Claimed \<and> assignee c \<noteq> None)
   \<and> (\<exists>c. component_of (run demo [Message ''CLAIM core'' ''@ann'' 1001]) ''api'' = Some c \<and>
        status c = Pending \<and> assignee c = None)"
proof -
  let ?co = "run demo [Message ''CLAIM core'' ''@ann'' 1001]"
  have core: "map_option status (component_of ?co ''core'') = Some Claimed"
    by code_simp
  have api: "map_option status (component_of ?co ''api'') = Some Pending"
    by code_simp
  note inv = assignee_by_status[of "''spec''"
      "[(''Core'', []), (''Api'', [''Core'']), (''Ghost'', [''Nowhere''])]"
      no_overrides 1000 "[Message ''CLAIM core'' ''@ann'' 1001]", folded demo_def]
  from core obtain c where c: "component_of ?co ''core'' = Some c" "status c = Claimed"
    by auto
  then have "c \<in> set (map_values (components (state ?co)))"
    by (auto simp: component_of_def getState_def map_values_def dest!: map_of_SomeD
        intro: rev_image_eqI)
  with inv c have 1: "assignee c \<noteq> None" by blast
  from api obtain a where a: "component_of ?co ''api'' = Some a" "status a = Pending"
    by auto
  then have "a \<in> set (map_values (components (state ?co)))"
    by (auto simp: component_of_def getState_def map_values_def dest!: map_of_SomeD
        intro: rev_image_eqI)
  with inv a have 2: "assignee a = None" by blast
  show ?thesis using c 1 a 2 by blast
qed

text \<open>
  The invariant as the specification words it (an assignee exactly when the status is
  claimed, building, ready or auditing) fails in both directions: after CLAIM and AUDIT
  PASS the component is merged and still has its assignee, and AUDIT FAIL on a component
  nobody claimed leaves it building without one.
\<close>

theorem assignee_iff_counterexample:
  "map_option status (component_of
      (run demo [Message ''CLAIM core'' ''@ann'' 1001, Message ''AUDIT core PASS'' ''@rev'' 1002])
      ''core'') = Some Merged
   \<and> map_option assignee (component_of
      (run demo [Message ''CLAIM core'' ''@ann'' 1001, Message ''AUDIT core PASS'' ''@rev'' 1002])
      ''core'') = Some (Some ''@ann'')
   \<and> map_option status (component_of (run demo [Message ''AUDIT core FAIL'' ''@rev'' 1001]) ''core'')
     = Some Building
   \<and> map_option assignee (component_of (run demo [Message ''AUDIT core FAIL'' ''@rev'' 1001]) ''core'')
     = Some None"
  by code_simp

lemma component_of_mem:
  "component_of co k = Some c \<Longrightarrow> c \<in> set (map_values (components (state co)))"
  by (auto simp: component_of_def getState_def map_values_def dest!: map_of_SomeD
      intro: rev_image_eqI)

lemma map_of_put:
  "map_of (components (state (put co (Some k) c))) = (map_of (components (state co)))(k \<mapsto> c)"
  by (simp add: components_put map_of_map_set)

section \<open>The statuses that occur\<close>

text \<open>
  C9. In every state reached from construction by any sequence of messages, sweeps and
  broadcasts, no component has status failed and none has status auditing. An AUDIT
  FAIL that exhausts the retries puts the component back to pending, and a pending
  component whose dependencies are met is claimed by the next CLAIM, whatever its
  retry count.
\<close>

theorem never_failed_or_auditing:
  "(\<forall>c \<in> set (map_values (components (state (run (constructor url comps cfg t0) evs)))).
      status c \<noteq> Failed \<and> status c \<noteq> Auditing)
   \<and> (msg_component msg = Some k \<and> map_of (components (state co)) k = Some cmp \<and>
       msg_value msg \<noteq> Some ''PASS'' \<and> maxRetries (config co) \<le> retryCount cmp + 1 \<longrightarrow>
       map_option status (map_of (components (state (handleAudit co msg))) k) = Some Pending)
   \<and> (msg_component msg = Some k \<and> map_of (components (state co)) k = Some cmp \<and>
       status cmp = Pending \<and> dependenciesMet co cmp \<longrightarrow>
       map_option status (map_of (components (state (handleClaim co msg now))) k) = Some Claimed)"
proof (intro conjI ballI impI)
  fix c
  assume "c \<in> set (map_values (components (state (run (constructor url comps cfg t0) evs))))"
  then have ok: "lifecycle_ok c"
    using reachable_ok[of url comps cfg t0 evs] by (simp add: all_ok_def)
  show "status c \<noteq> Failed" using ok by (simp add: lifecycle_ok_def)
  show "status c \<noteq> Auditing" using ok by (simp add: lifecycle_ok_def)
next
  assume "msg_component msg = Some k \<and> map_of (components (state co)) k = Some cmp \<and>
       msg_value msg \<noteq> Some ''PASS'' \<and> maxRetries (config co) \<le> retryCount cmp + 1"
  then show "map_option status (map_of (components (state (handleAudit co msg))) k) = Some Pending"
    by (simp add: handleAudit_def map_get_def state_sendMessage map_of_put)
next
  assume "msg_component msg = Some k \<and> map_of (components (state co)) k = Some cmp \<and>
       status cmp = Pending \<and> dependenciesMet co cmp"
  then show "map_option status (map_of (components (state (handleClaim co msg now))) k) = Some Claimed"
    by (simp add: handleClaim_def map_get_def state_sendMessage map_of_put)
qed

theorem never_failed_or_auditing_witness:
  "(\<exists>c. component_of (run demo [Message ''AUDIT core FAIL'' ''@rev'' 1001,
            Message ''AUDIT core FAIL'' ''@rev'' 1002, Message ''AUDIT core FAIL'' ''@rev'' 1003]) ''core'' = Some c \<and>
         status c \<noteq> Failed \<and> status c \<noteq> Auditing)
   \<and> map_option status (map_of (components (state (handleAudit
        (run demo [Message ''AUDIT core FAIL'' ''@rev'' 1001, Message ''AUDIT core FAIL'' ''@rev'' 1002])
        (audit_msg ''core'' ''@rev'' ''FAIL'')))) ''core'') = Some Pending
   \<and> map_option status (map_of (components (state (handleClaim
        (run demo [Message ''AUDIT core FAIL'' ''@rev'' 1001, Message ''AUDIT core FAIL'' ''@rev'' 1002,
           Message ''AUDIT core FAIL'' ''@rev'' 1003])
        (claim_msg ''core'' ''@ann'') 1004))) ''core'') = Some Claimed"
proof -
  let ?two = "run demo [Message ''AUDIT core FAIL'' ''@rev'' 1001, Message ''AUDIT core FAIL'' ''@rev'' 1002]"
  let ?three = "run demo [Message ''AUDIT core FAIL'' ''@rev'' 1001,
            Message ''AUDIT core FAIL'' ''@rev'' 1002, Message ''AUDIT core FAIL'' ''@rev'' 1003]"
  let ?c2 = "(pending_component ''Core'' [])\<lparr>status := Building, retryCount := 2\<rparr>"
  let ?c3 = "(pending_component ''Core'' [])\<lparr>retryCount := 3\<rparr>"
  have two: "map_of (components (state ?two)) ''core'' = Some ?c2"
    by code_simp
  have cfg: "maxRetries (config ?two) = 3"
    by code_simp
  have three: "map_of (components (state ?three)) ''core'' = Some ?c3"
    by code_simp
  have deps: "dependenciesMet ?three ?c3"
    by (simp add: dependenciesMet_def pending_component_def)
  have mem: "?c3 \<in> set (map_values (components (state ?three)))"
    using three by (simp add: component_of_mem component_of_def getState_def)
  have a: "status ?c3 \<noteq> Failed \<and> status ?c3 \<noteq> Auditing"
    using never_failed_or_auditing[of "''spec''"
      "[(''Core'', []), (''Api'', [''Core'']), (''Ghost'', [''Nowhere''])]" no_overrides 1000
      "[Message ''AUDIT core FAIL'' ''@rev'' 1001,
            Message ''AUDIT core FAIL'' ''@rev'' 1002, Message ''AUDIT core FAIL'' ''@rev'' 1003]",
      folded demo_def] mem
    by blast
  have b: "map_option status (map_of (components (state (handleAudit ?two
        (audit_msg ''core'' ''@rev'' ''FAIL'')))) ''core'') = Some Pending"
    using never_failed_or_auditing[where msg = "audit_msg ''core'' ''@rev'' ''FAIL''" and k = "''core''"
        and co = ?two and cmp = ?c2]
      two cfg
    by (simp add: audit_msg_def pending_component_def)
  have c: "map_option status (map_of (components (state (handleClaim ?three
        (claim_msg ''core'' ''@ann'') 1004))) ''core'') = Some Claimed"
    using never_failed_or_auditing[where msg = "claim_msg ''core'' ''@ann''" and k = "''core''"
        and co = ?three and cmp = ?c3 and now = 1004]
      three deps
    by (simp add: claim_msg_def pending_component_def)
  show ?thesis using a b c three by (simp add: component_of_def getState_def)
qed

lemma rc_le_refl: "rc_le co co"
  by (simp add: rc_le_def)

lemma rc_le_trans: "rc_le a b \<Longrightarrow> rc_le b c \<Longrightarrow> rc_le a c"
  unfolding rc_le_def by (meson order_trans)

lemma rc_le_state: "state co' = state co \<Longrightarrow> rc_le co co'"
  by (simp add: rc_le_def)

lemma rc_le_state2: "state co'' = state co' \<Longrightarrow> rc_le co co' \<Longrightarrow> rc_le co co''"
  by (simp add: rc_le_def)

lemma rc_le_put:
  "map_get (components (state co)) key = Some c \<Longrightarrow> retryCount c \<le> retryCount c' \<Longrightarrow>
   rc_le co (put co key c')"
  by (cases key) (auto simp: rc_le_def map_get_def map_of_put)

lemma handleClaim_rc: "rc_le co (handleClaim co msg now)"
  by (auto simp: handleClaim_def rc_le_state state_sendMessage rc_le_put
      intro!: rc_le_state2[OF state_sendMessage] split: option.splits)

lemma handleProgress_rc: "rc_le co (handleProgress co msg now)"
  by (auto simp: handleProgress_def rc_le_refl rc_le_put split: option.splits)

lemma handleReady_rc: "rc_le co (handleReady co msg)"
  by (auto simp: handleReady_def rc_le_refl rc_le_put split: option.splits)

lemma handleBlocked_rc: "rc_le co (handleBlocked co msg)"
  by (simp add: handleBlocked_def rc_le_def)

lemma handleAbort_rc: "rc_le co (handleAbort co msg)"
  by (auto simp: handleAbort_def rc_le_refl rc_le_put
      intro!: rc_le_state2[OF state_broadcastTasks] split: option.splits)

lemma handleAudit_rc: "rc_le co (handleAudit co msg)"
  by (auto simp: handleAudit_def Let_def rc_le_refl rc_le_put
      intro!: rc_le_state2[OF state_sendMessage] rc_le_state2[OF state_broadcastTasks]
      split: option.splits)

lemma handleMessage_rc: "rc_le co (handleMessage co content a now)"
proof (cases "parseMessage content a")
  case None
  then show ?thesis by (simp add: handleMessage_def rc_le_refl)
next
  case (Some p)
  then show ?thesis
    by (cases "msg_type p")
       (simp_all add: handleMessage_def rc_le_refl handleClaim_rc handleProgress_rc
          handleReady_rc handleBlocked_rc handleAbort_rc handleAudit_rc)
qed

lemma retryCount_sweep: "retryCount (fst (sweep_component cfg now c)) = retryCount c"
  by (simp add: fst_sweep_component check_claim_def check_progress_def split: option.splits)

lemma map_of_checkTimeouts:
  "map_of (components (state (checkTimeouts co now))) k =
     map_option (\<lambda>c. fst (sweep_component (config co) now c)) (map_of (components (state co)) k)"
  by (simp add: components_checkTimeouts map_of_map)

lemma checkTimeouts_rc: "rc_le co (checkTimeouts co now)"
  by (simp add: rc_le_def map_of_checkTimeouts retryCount_sweep)

lemma step_rc: "rc_le co (step co e)"
  by (cases e) (simp_all add: handleMessage_rc checkTimeouts_rc rc_le_state state_broadcastTasks)

lemma run_rc: "rc_le co (run co evs)"
  unfolding run_def
proof (induction evs arbitrary: co)
  case Nil
  show ?case by (simp add: rc_le_refl)
next
  case (Cons e evs)
  show ?case using rc_le_trans[OF step_rc[of co e] Cons.IH[of "step co e"]] by simp
qed

section \<open>The retry count\<close>

text \<open>
  C3, as amended. A successful CLAIM leaves the retry count of every component as it
  is, and no operation ever resets it: the count is 0 at construction, grows by one
  with each AUDIT verdict other than PASS on the component, and never decreases along
  any sequence of messages, sweeps and broadcasts, so it persists across releases and
  across later claims.
\<close>

theorem retryCount_never_reset:
  "map_option retryCount (map_of (components (state (handleClaim co msg now))) k) =
     map_option retryCount (map_of (components (state co)) k)
   \<and> (map_of (components (state co)) k = Some c \<longrightarrow>
        (\<exists>c'. map_of (components (state (run co evs))) k = Some c' \<and> retryCount c \<le> retryCount c'))
   \<and> (msg_component msg = Some k \<and> map_of (components (state co)) k = Some c \<and>
       msg_value msg \<noteq> Some ''PASS'' \<longrightarrow>
       map_option retryCount (map_of (components (state (handleAudit co msg))) k) =
         Some (retryCount c + 1))
   \<and> (\<forall>c \<in> set (map_values (components (state (constructor url comps cfg t0)))). retryCount c = 0)"
proof (intro conjI impI ballI)
  show "map_option retryCount (map_of (components (state (handleClaim co msg now))) k) =
     map_option retryCount (map_of (components (state co)) k)"
    by (cases "msg_component msg")
       (auto simp: handleClaim_def map_get_def state_sendMessage components_put map_of_map_set
          split: option.splits)
next
  assume "map_of (components (state co)) k = Some c"
  then show "\<exists>c'. map_of (components (state (run co evs))) k = Some c' \<and> retryCount c \<le> retryCount c'"
    using run_rc[of co evs] by (simp add: rc_le_def)
next
  assume "msg_component msg = Some k \<and> map_of (components (state co)) k = Some c \<and>
       msg_value msg \<noteq> Some ''PASS''"
  then show "map_option retryCount (map_of (components (state (handleAudit co msg))) k) =
         Some (retryCount c + 1)"
    by (simp add: handleAudit_def Let_def map_get_def state_sendMessage map_of_put)
next
  fix c
  assume "c \<in> set (map_values (components (state (constructor url comps cfg t0))))"
  then show "retryCount c = 0"
    using init_components_set[of "[]" comps]
    by (auto simp: constructor_def map_values_def new_component_def)
qed

theorem retryCount_never_reset_witness:
  "map_option retryCount (map_of (components (state (handleClaim
       (run demo [Message ''AUDIT core FAIL'' ''@rev'' 1001, Message ''AUDIT core FAIL'' ''@rev'' 1002,
          Message ''AUDIT core FAIL'' ''@rev'' 1003])
       (claim_msg ''core'' ''@ann'') 1004))) ''core'') = Some 3
   \<and> (\<exists>c'. map_of (components (state
         (run demo [Message ''AUDIT core FAIL'' ''@rev'' 1001, Message ''AUDIT core FAIL'' ''@rev'' 1002,
            Message ''AUDIT core FAIL'' ''@rev'' 1003]))) ''core'' = Some c' \<and> 0 \<le> retryCount c')
   \<and> map_option retryCount (map_of (components (state
         (handleAudit demo (audit_msg ''core'' ''@rev'' ''FAIL'')))) ''core'') = Some 1
   \<and> pending_component ''Core'' [] \<in> set (map_values (components (state demo)))
   \<and> retryCount (pending_component ''Core'' []) = 0"
proof -
  let ?three = "run demo [Message ''AUDIT core FAIL'' ''@rev'' 1001,
      Message ''AUDIT core FAIL'' ''@rev'' 1002, Message ''AUDIT core FAIL'' ''@rev'' 1003]"
  let ?core = "pending_component ''Core'' []"
  have three: "map_option retryCount (map_of (components (state ?three)) ''core'') = Some 3"
    by code_simp
  have core: "map_of (components (state demo)) ''core'' = Some ?core"
    by (simp add: demo_components)
  have mem: "?core \<in> set (map_values (components (state demo)))"
    by (simp add: demo_components map_values_def)
  have a: "map_option retryCount (map_of (components (state (handleClaim ?three
       (claim_msg ''core'' ''@ann'') 1004))) ''core'') = Some 3"
    using retryCount_never_reset[where co = ?three and msg = "claim_msg ''core'' ''@ann''"
        and now = 1004 and k = "''core''"] three
    by simp
  have b: "\<exists>c'. map_of (components (state ?three)) ''core'' = Some c' \<and> 0 \<le> retryCount c'"
    using retryCount_never_reset[where co = demo and k = "''core''" and c = ?core
        and evs = "[Message ''AUDIT core FAIL'' ''@rev'' 1001,
          Message ''AUDIT core FAIL'' ''@rev'' 1002, Message ''AUDIT core FAIL'' ''@rev'' 1003]"] core
    by (simp add: pending_component_def)
  have c: "map_option retryCount (map_of (components (state
         (handleAudit demo (audit_msg ''core'' ''@rev'' ''FAIL'')))) ''core'') = Some 1"
    using retryCount_never_reset[where co = demo and k = "''core''" and c = ?core
        and msg = "audit_msg ''core'' ''@rev'' ''FAIL''"] core
    by (simp add: audit_msg_def pending_component_def)
  have d: "retryCount ?core = 0"
    using retryCount_never_reset[where url = "''spec''"
        and comps = "[(''Core'', []), (''Api'', [''Core'']), (''Ghost'', [''Nowhere''])]"
        and cfg = no_overrides and ?t0.0 = 1000, folded demo_def] mem
    by blast
  show ?thesis using a b c d mem by simp
qed

text \<open>
  The claim that a fresh successful CLAIM resets the count fails: after three AUDIT FAIL
  verdicts (RETRY is sent, the component is pending again) a CLAIM is acknowledged and
  the count is still 3.
\<close>

theorem retryCount_reset_counterexample:
  "sent (run demo [Message ''AUDIT core FAIL'' ''@rev'' 1001, Message ''AUDIT core FAIL'' ''@rev'' 1002,
       Message ''AUDIT core FAIL'' ''@rev'' 1003, Message ''CLAIM core'' ''@ann'' 1004])
     = [''RETRY core'', ''ACK core @ann'']
   \<and> map_option retryCount (component_of
       (run demo [Message ''AUDIT core FAIL'' ''@rev'' 1001, Message ''AUDIT core FAIL'' ''@rev'' 1002,
          Message ''AUDIT core FAIL'' ''@rev'' 1003, Message ''CLAIM core'' ''@ann'' 1004]) ''core'')
     = Some 3"
  by code_simp

section \<open>The timeout sweep\<close>

lemma check_claim_idem:
  "check_claim cfg now (fst (check_claim cfg now c)) = (fst (check_claim cfg now c), [])"
  by (auto simp: check_claim_def split: option.splits)

lemma check_progress_idem:
  "check_progress cfg now (fst (check_progress cfg now c)) = (fst (check_progress cfg now c), [])"
  by (auto simp: check_progress_def split: option.splits)

lemma check_claim_after_progress:
  "check_claim cfg now (fst (check_progress cfg now (fst (check_claim cfg now c)))) =
     (fst (check_progress cfg now (fst (check_claim cfg now c))), [])"
  by (auto simp: check_claim_def check_progress_def split: option.splits)

lemma sweep_component_idem:
  "sweep_component cfg now (fst (sweep_component cfg now c)) = (fst (sweep_component cfg now c), [])"
proof -
  let ?c' = "fst (check_progress cfg now (fst (check_claim cfg now c)))"
  have "sweep_component cfg now ?c' = (?c', [])"
    by (simp add: sweep_component_def check_claim_after_progress check_progress_idem)
  then show ?thesis by (simp add: fst_sweep_component)
qed

lemma sweep_loop_idem:
  "sweep_loop cfg now (fst (sweep_loop cfg now m)) = (fst (sweep_loop cfg now m), [])"
proof (induction m)
  case Nil
  show ?case by simp
next
  case (Cons p m)
  obtain k c where p: "p = (k, c)"
    by (cases p)
  obtain c' ms where s: "sweep_component cfg now c = (c', ms)"
    by (cases "sweep_component cfg now c")
  obtain m' ms' where l: "sweep_loop cfg now m = (m', ms')"
    by (cases "sweep_loop cfg now m")
  have s2: "sweep_component cfg now c' = (c', [])"
    using sweep_component_idem[of cfg now c] s by simp
  have l2: "sweep_loop cfg now m' = (m', [])"
    using Cons.IH l by simp
  show ?case by (simp add: p s l s2 l2)
qed

lemma config_checkTimeouts: "config (checkTimeouts co now) = config co"
  by (simp add: checkTimeouts_def split: prod.splits)

text \<open>
  C7. The sweep is idempotent: for every coordinator and every clock reading, a second
  sweep at the same clock reading, with nothing in between, leaves the coordinator as
  the first sweep left it: the same build state, and no further message sent.
\<close>

theorem sweep_idempotent:
  "checkTimeouts (checkTimeouts co now) now = checkTimeouts co now
   \<and> snd (sweep_loop (config (checkTimeouts co now)) now
            (components (state (checkTimeouts co now)))) = []
   \<and> sent (checkTimeouts (checkTimeouts co now) now) = sent (checkTimeouts co now)"
proof -
  obtain m ms where l: "sweep_loop (config co) now (components (state co)) = (m, ms)"
    by (cases "sweep_loop (config co) now (components (state co))")
  have again: "sweep_loop (config co) now m = (m, [])"
    using sweep_loop_idem[of "config co" now "components (state co)"] l by simp
  have same: "checkTimeouts (checkTimeouts co now) now = checkTimeouts co now"
    by (simp add: checkTimeouts_def l again)
  have none: "snd (sweep_loop (config (checkTimeouts co now)) now
            (components (state (checkTimeouts co now)))) = []"
    by (simp add: checkTimeouts_def l again)
  show ?thesis using same none by simp
qed

theorem sweep_idempotent_witness:
  "sent (checkTimeouts (run demo [Message ''CLAIM core'' ''@ann'' 1001]) 200000)
       = [''ACK core @ann'', ''TIMEOUT Core'']
   \<and> sent (checkTimeouts (checkTimeouts (run demo [Message ''CLAIM core'' ''@ann'' 1001]) 200000) 200000)
       = [''ACK core @ann'', ''TIMEOUT Core'']"
proof -
  have a: "sent (checkTimeouts (run demo [Message ''CLAIM core'' ''@ann'' 1001]) 200000)
       = [''ACK core @ann'', ''TIMEOUT Core'']"
    by code_simp
  show ?thesis
    using sweep_idempotent[of "run demo [Message ''CLAIM core'' ''@ann'' 1001]" 200000] a by simp
qed

section \<open>Release paths\<close>

lemma sweep_claimed:
  "status c = Claimed \<Longrightarrow> claimedAt c = Some t \<Longrightarrow> t \<noteq> 0 \<Longrightarrow> claimExpiryMs cfg < now - t \<Longrightarrow>
   sweep_component cfg now c =
     (c\<lparr>status := Pending, assignee := None, claimedAt := None\<rparr>, [''TIMEOUT '' @ name c])"
  by (simp add: sweep_component_def check_claim_def check_progress_def arg_simps js_str_Some
      split: option.splits)

lemma sweep_building:
  "status c = Building \<Longrightarrow> lastProgress c = Some t \<Longrightarrow> t \<noteq> 0 \<Longrightarrow>
   progressTimeoutMs cfg < now - t \<Longrightarrow>
   sweep_component cfg now c =
     (c\<lparr>status := Pending, assignee := None, lastProgress := None\<rparr>, [''TIMEOUT '' @ name c])"
  by (simp add: sweep_component_def check_claim_def check_progress_def arg_simps js_str_Some
      split: option.splits)

lemma sweep_building_untracked:
  "status c = Building \<Longrightarrow> lastProgress c = None \<or> lastProgress c = Some 0 \<Longrightarrow>
   sweep_component cfg now c = (c, [])"
  by (auto simp: sweep_component_def check_claim_def check_progress_def split: option.splits)

text \<open>
  C5, as amended. Every release path returns the component to pending and clears its
  assignee, and each path clears at most one timestamp: ABORT by the current assignee
  and the claim-expiry timeout clear claimedAt and leave lastProgress as it was; the
  progress timeout clears lastProgress and leaves claimedAt as it was; retry exhaustion
  on AUDIT FAIL increments the retry count and leaves both timestamps as they were.
\<close>

theorem release_paths:
  "(msg_component msg = Some k \<and> map_of (components (state co)) k = Some cmp \<and>
    assignee cmp = msg_agent msg \<longrightarrow>
      map_of (components (state (handleAbort co msg))) k =
        Some (cmp\<lparr>status := Pending, assignee := None, claimedAt := None\<rparr>))
   \<and> (msg_component msg = Some k \<and> map_of (components (state co)) k = Some cmp \<and>
       msg_value msg \<noteq> Some ''PASS'' \<and> maxRetries (config co) \<le> retryCount cmp + 1 \<longrightarrow>
      map_of (components (state (handleAudit co msg))) k =
        Some (cmp\<lparr>retryCount := retryCount cmp + 1, status := Pending, assignee := None\<rparr>))
   \<and> (map_of (components (state co)) k = Some cmp \<and> status cmp = Claimed \<and>
       claimedAt cmp = Some t \<and> t \<noteq> 0 \<and> claimExpiryMs (config co) < now - t \<longrightarrow>
      map_of (components (state (checkTimeouts co now))) k =
        Some (cmp\<lparr>status := Pending, assignee := None, claimedAt := None\<rparr>))
   \<and> (map_of (components (state co)) k = Some cmp \<and> status cmp = Building \<and>
       lastProgress cmp = Some t \<and> t \<noteq> 0 \<and> progressTimeoutMs (config co) < now - t \<longrightarrow>
      map_of (components (state (checkTimeouts co now))) k =
        Some (cmp\<lparr>status := Pending, assignee := None, lastProgress := None\<rparr>))"
  apply (intro conjI impI)
  subgoal by (simp add: handleAbort_def map_get_def state_broadcastTasks map_of_put)
  subgoal by (simp add: handleAudit_def Let_def map_get_def state_sendMessage map_of_put)
  subgoal by (simp add: map_of_checkTimeouts sweep_claimed)
  subgoal by (simp add: map_of_checkTimeouts sweep_building)
  done

theorem release_paths_witness:
  "map_of (components (state (handleAbort
       (run demo [Message ''CLAIM core'' ''@ann'' 1001, Message ''PROGRESS core 50%'' ''@ann'' 1002])
       (abort_msg ''core'' ''@ann'')))) ''core''
     = Some ((pending_component ''Core'' [])\<lparr>lastProgress := Some 1002\<rparr>)
   \<and> map_of (components (state (handleAudit
       (run demo [Message ''AUDIT core FAIL'' ''@rev'' 1001, Message ''AUDIT core FAIL'' ''@rev'' 1002])
       (audit_msg ''core'' ''@rev'' ''FAIL'')))) ''core''
     = Some ((pending_component ''Core'' [])\<lparr>retryCount := 3\<rparr>)
   \<and> map_of (components (state (checkTimeouts
       (run demo [Message ''CLAIM core'' ''@ann'' 1001]) 200000))) ''core''
     = Some (pending_component ''Core'' [])
   \<and> map_of (components (state (checkTimeouts
       (run demo [Message ''CLAIM core'' ''@ann'' 1001, Message ''PROGRESS core 50%'' ''@ann'' 1002])
       700000))) ''core''
     = Some ((pending_component ''Core'' [])\<lparr>claimedAt := Some 1001\<rparr>)"
proof -
  let ?claimed = "run demo [Message ''CLAIM core'' ''@ann'' 1001]"
  let ?built = "run demo [Message ''CLAIM core'' ''@ann'' 1001,
      Message ''PROGRESS core 50%'' ''@ann'' 1002]"
  let ?two = "run demo [Message ''AUDIT core FAIL'' ''@rev'' 1001,
      Message ''AUDIT core FAIL'' ''@rev'' 1002]"
  let ?cc = "(pending_component ''Core'' [])\<lparr>status := Claimed, assignee := Some ''@ann'',
      claimedAt := Some 1001\<rparr>"
  let ?cb = "(pending_component ''Core'' [])\<lparr>status := Building, assignee := Some ''@ann'',
      claimedAt := Some 1001, lastProgress := Some 1002\<rparr>"
  let ?c2 = "(pending_component ''Core'' [])\<lparr>status := Building, retryCount := 2\<rparr>"
  have claimed: "map_of (components (state ?claimed)) ''core'' = Some ?cc"
    by code_simp
  have built: "map_of (components (state ?built)) ''core'' = Some ?cb"
    by code_simp
  have two: "map_of (components (state ?two)) ''core'' = Some ?c2"
    by code_simp
  have cfg: "claimExpiryMs (config ?claimed) = 120000" "progressTimeoutMs (config ?built) = 600000"
    "maxRetries (config ?two) = 3"
    by code_simp+
  have a: "map_of (components (state (handleAbort ?built (abort_msg ''core'' ''@ann'')))) ''core''
     = Some ((pending_component ''Core'' [])\<lparr>lastProgress := Some 1002\<rparr>)"
    using release_paths[where msg = "abort_msg ''core'' ''@ann''" and k = "''core''"
        and co = ?built and cmp = ?cb] built
    by (simp add: abort_msg_def pending_component_def)
  have b: "map_of (components (state (handleAudit ?two (audit_msg ''core'' ''@rev'' ''FAIL'')))) ''core''
     = Some ((pending_component ''Core'' [])\<lparr>retryCount := 3\<rparr>)"
    using release_paths[where msg = "audit_msg ''core'' ''@rev'' ''FAIL''" and k = "''core''"
        and co = ?two and cmp = ?c2] two cfg
    by (simp add: audit_msg_def pending_component_def)
  have c: "map_of (components (state (checkTimeouts ?claimed 200000))) ''core''
     = Some (pending_component ''Core'' [])"
    using release_paths[where k = "''core''" and co = ?claimed and cmp = ?cc and t = 1001
        and now = 200000] claimed cfg
    by (simp add: pending_component_def)
  have d: "map_of (components (state (checkTimeouts ?built 700000))) ''core''
     = Some ((pending_component ''Core'' [])\<lparr>claimedAt := Some 1001\<rparr>)"
    using release_paths[where k = "''core''" and co = ?built and cmp = ?cb and t = 1002
        and now = 700000] built cfg
    by (simp add: pending_component_def)
  show ?thesis using a b c d by simp
qed

text \<open>
  No release path clears both timestamps. After CLAIM, PROGRESS and ABORT the component
  is pending and still has its lastProgress; after CLAIM and three AUDIT FAIL verdicts
  it is pending and still has its claimedAt; after CLAIM, PROGRESS and a sweep past the
  progress timeout it is pending and still has its claimedAt.
\<close>

theorem release_clears_both_counterexample:
  "map_option status (component_of
      (run demo [Message ''CLAIM core'' ''@ann'' 1001, Message ''PROGRESS core 50%'' ''@ann'' 1002,
         Message ''ABORT core'' ''@ann'' 1003]) ''core'') = Some Pending
   \<and> map_option lastProgress (component_of
      (run demo [Message ''CLAIM core'' ''@ann'' 1001, Message ''PROGRESS core 50%'' ''@ann'' 1002,
         Message ''ABORT core'' ''@ann'' 1003]) ''core'') = Some (Some 1002)
   \<and> map_option status (component_of
      (run demo [Message ''CLAIM core'' ''@ann'' 1001, Message ''AUDIT core FAIL'' ''@rev'' 1002,
         Message ''AUDIT core FAIL'' ''@rev'' 1003, Message ''AUDIT core FAIL'' ''@rev'' 1004])
      ''core'') = Some Pending
   \<and> map_option claimedAt (component_of
      (run demo [Message ''CLAIM core'' ''@ann'' 1001, Message ''AUDIT core FAIL'' ''@rev'' 1002,
         Message ''AUDIT core FAIL'' ''@rev'' 1003, Message ''AUDIT core FAIL'' ''@rev'' 1004])
      ''core'') = Some (Some 1001)
   \<and> map_option status (component_of
      (run demo [Message ''CLAIM core'' ''@ann'' 1001, Message ''PROGRESS core 50%'' ''@ann'' 1002,
         Sweep 700000]) ''core'') = Some Pending
   \<and> map_option claimedAt (component_of
      (run demo [Message ''CLAIM core'' ''@ann'' 1001, Message ''PROGRESS core 50%'' ''@ann'' 1002,
         Sweep 700000]) ''core'') = Some (Some 1001)"
  by code_simp

section \<open>AUDIT on a component in any status\<close>

lemma sweep_sends:
  assumes "map_of (components (state co)) k = Some c"
    and "snd (sweep_component (config co) now c) = [m]"
  shows "\<exists>pre post. sent (checkTimeouts co now) = sent co @ pre @ [m] @ post"
proof -
  have "(k, c) \<in> set (components (state co))"
    using assms(1) by (rule map_of_SomeD)
  then obtain xs ys where sp: "components (state co) = xs @ (k, c) # ys"
    by (auto dest: split_list)
  let ?f = "\<lambda>(k, c). snd (sweep_component (config co) now c)"
  have "sent (checkTimeouts co now) =
      sent co @ concat (map ?f xs) @ [m] @ concat (map ?f ys)"
    using assms(2) by (simp add: sent_checkTimeouts sp)
  then show ?thesis by blast
qed

lemma handlers_keep_unassigned:
  assumes k: "map_of (components (state co)) k = Some cmp"
    and un: "assignee cmp = None" and ag: "msg_agent p \<noteq> None"
  shows "map_of (components (state (handleProgress co p now))) k = Some cmp"
    and "map_of (components (state (handleReady co p))) k = Some cmp"
    and "map_of (components (state (handleAbort co p))) k = Some cmp"
  using assms
  by (cases "msg_component p";
      auto simp: handleProgress_def handleReady_def handleAbort_def map_get_def
        state_broadcastTasks map_of_put split: option.splits)+

lemma claim_keeps_non_pending:
  assumes k: "map_of (components (state co)) k = Some cmp" and st: "status cmp \<noteq> Pending"
  shows "map_of (components (state (handleClaim co p now))) k = Some cmp"
  using assms
  by (cases "msg_component p")
     (auto simp: handleClaim_def map_get_def state_sendMessage map_of_put split: option.splits)

text \<open>
  C10, as amended. An AUDIT verdict applies to any existing component, whatever its
  status and whoever sends it: PASS sets the status to merged, and any other verdict
  below the retry limit increments the retry count and sets the status to building,
  leaving the assignee as it was. A building component without assignee is changed by
  no message other than AUDIT (PROGRESS, READY and ABORT need the sender to be the
  assignee, CLAIM needs status pending). The sweep leaves it alone as long as it has no
  lastProgress timestamp, but a timestamp left by an earlier PROGRESS still counts: once
  that is overdue, the sweep releases the component to pending and sends TIMEOUT for it.
\<close>

theorem audit_any_status:
  "(msg_component msg = Some k \<and> map_of (components (state co)) k = Some cmp \<and>
    msg_value msg = Some ''PASS'' \<longrightarrow>
      map_of (components (state (handleAudit co msg))) k = Some (cmp\<lparr>status := Merged\<rparr>))
   \<and> (msg_component msg = Some k \<and> map_of (components (state co)) k = Some cmp \<and>
       msg_value msg \<noteq> Some ''PASS'' \<and> retryCount cmp + 1 < maxRetries (config co) \<longrightarrow>
      map_of (components (state (handleAudit co msg))) k =
        Some (cmp\<lparr>retryCount := retryCount cmp + 1, status := Building\<rparr>))
   \<and> (map_of (components (state co)) k = Some cmp \<and> status cmp = Building \<and>
       assignee cmp = None \<and> map_option msg_type (parseMessage content a) \<noteq> Some AUDIT \<longrightarrow>
      map_of (components (state (handleMessage co content a now))) k = Some cmp)
   \<and> (map_of (components (state co)) k = Some cmp \<and> status cmp = Building \<and>
       (lastProgress cmp = None \<or> lastProgress cmp = Some 0) \<longrightarrow>
      map_of (components (state (checkTimeouts co now))) k = Some cmp)
   \<and> (map_of (components (state co)) k = Some cmp \<and> status cmp = Building \<and>
       lastProgress cmp = Some t \<and> t \<noteq> 0 \<and> progressTimeoutMs (config co) < now - t \<longrightarrow>
      map_of (components (state (checkTimeouts co now))) k =
        Some (cmp\<lparr>status := Pending, assignee := None, lastProgress := None\<rparr>) \<and>
      (\<exists>pre post. sent (checkTimeouts co now) =
         sent co @ pre @ [''TIMEOUT '' @ name cmp] @ post))"
proof (intro conjI impI)
  assume "msg_component msg = Some k \<and> map_of (components (state co)) k = Some cmp \<and>
    msg_value msg = Some ''PASS''"
  then show "map_of (components (state (handleAudit co msg))) k = Some (cmp\<lparr>status := Merged\<rparr>)"
    by (simp add: handleAudit_def Let_def map_get_def state_sendMessage state_broadcastTasks
        map_of_put)
next
  assume "msg_component msg = Some k \<and> map_of (components (state co)) k = Some cmp \<and>
       msg_value msg \<noteq> Some ''PASS'' \<and> retryCount cmp + 1 < maxRetries (config co)"
  then show "map_of (components (state (handleAudit co msg))) k =
        Some (cmp\<lparr>retryCount := retryCount cmp + 1, status := Building\<rparr>)"
    by (simp add: handleAudit_def Let_def map_get_def map_of_put)
next
  assume h: "map_of (components (state co)) k = Some cmp \<and> status cmp = Building \<and>
       assignee cmp = None \<and> map_option msg_type (parseMessage content a) \<noteq> Some AUDIT"
  show "map_of (components (state (handleMessage co content a now))) k = Some cmp"
  proof (cases "parseMessage content a")
    case None
    then show ?thesis using h by (simp add: handleMessage_def)
  next
    case (Some p)
    then have ag: "msg_agent p \<noteq> None" by (simp add: parseMessage_agent)
    have st: "status cmp \<noteq> Pending" using h by simp
    show ?thesis using Some h
      by (cases "msg_type p")
         (simp_all add: handleMessage_def handlers_keep_unassigned[OF _ _ ag]
            claim_keeps_non_pending[OF _ st] handleBlocked_def)
  qed
next
  assume "map_of (components (state co)) k = Some cmp \<and> status cmp = Building \<and>
       (lastProgress cmp = None \<or> lastProgress cmp = Some 0)"
  then show "map_of (components (state (checkTimeouts co now))) k = Some cmp"
    by (simp add: map_of_checkTimeouts sweep_building_untracked)
next
  assume "map_of (components (state co)) k = Some cmp \<and> status cmp = Building \<and>
       lastProgress cmp = Some t \<and> t \<noteq> 0 \<and> progressTimeoutMs (config co) < now - t"
  then show "map_of (components (state (checkTimeouts co now))) k =
        Some (cmp\<lparr>status := Pending, assignee := None, lastProgress := None\<rparr>)"
    by (simp add: map_of_checkTimeouts sweep_building)
next
  assume h: "map_of (components (state co)) k = Some cmp \<and> status cmp = Building \<and>
       lastProgress cmp = Some t \<and> t \<noteq> 0 \<and> progressTimeoutMs (config co) < now - t"
  then have found: "map_of (components (state co)) k = Some cmp"
    by simp
  have msg: "snd (sweep_component (config co) now cmp) = [''TIMEOUT '' @ name cmp]"
    using h by (simp add: sweep_building)
  show "\<exists>pre post. sent (checkTimeouts co now) =
         sent co @ pre @ [''TIMEOUT '' @ name cmp] @ post"
    using sweep_sends[OF found msg] .
qed

theorem audit_any_status_witness:
  "map_of (components (state (handleAudit demo (audit_msg ''core'' ''@rev'' ''PASS'')))) ''core''
     = Some ((pending_component ''Core'' [])\<lparr>status := Merged\<rparr>)
   \<and> map_of (components (state (handleAudit demo (audit_msg ''core'' ''@rev'' ''FAIL'')))) ''core''
     = Some ((pending_component ''Core'' [])\<lparr>retryCount := 1, status := Building\<rparr>)
   \<and> map_of (components (state (handleMessage
        (handleAudit demo (audit_msg ''core'' ''@rev'' ''FAIL'')) ''PROGRESS core 50%'' ''@ann'' 1005)))
        ''core''
     = Some ((pending_component ''Core'' [])\<lparr>retryCount := 1, status := Building\<rparr>)
   \<and> map_of (components (state (checkTimeouts
        (handleAudit demo (audit_msg ''core'' ''@rev'' ''FAIL'')) 1000000000))) ''core''
     = Some ((pending_component ''Core'' [])\<lparr>retryCount := 1, status := Building\<rparr>)
   \<and> map_of (components (state (checkTimeouts
        (run demo [Message ''CLAIM core'' ''@ann'' 1001, Message ''PROGRESS core 50%'' ''@ann'' 1002,
           Message ''ABORT core'' ''@ann'' 1003, Message ''AUDIT core FAIL'' ''@rev'' 1004])
        700000))) ''core''
     = Some ((pending_component ''Core'' [])\<lparr>retryCount := 1\<rparr>)"
proof -
  let ?core = "pending_component ''Core'' []"
  let ?ub = "(pending_component ''Core'' [])\<lparr>retryCount := 1, status := Building\<rparr>"
  let ?b = "handleAudit demo (audit_msg ''core'' ''@rev'' ''FAIL'')"
  let ?s = "run demo [Message ''CLAIM core'' ''@ann'' 1001, Message ''PROGRESS core 50%'' ''@ann'' 1002,
      Message ''ABORT core'' ''@ann'' 1003, Message ''AUDIT core FAIL'' ''@rev'' 1004]"
  let ?stale = "(pending_component ''Core'' [])\<lparr>status := Building, lastProgress := Some 1002,
      retryCount := 1\<rparr>"
  have core: "map_of (components (state demo)) ''core'' = Some ?core"
    by (simp add: demo_components)
  have cfg: "maxRetries (config demo) = 3" "progressTimeoutMs (config ?s) = 600000"
    by code_simp+
  have stale: "map_of (components (state ?s)) ''core'' = Some ?stale"
    by code_simp
  have parse: "map_option msg_type (parseMessage ''PROGRESS core 50%'' ''@ann'') \<noteq> Some AUDIT"
    by code_simp
  have a: "map_of (components (state (handleAudit demo (audit_msg ''core'' ''@rev'' ''PASS'')))) ''core''
     = Some (?core\<lparr>status := Merged\<rparr>)"
    using audit_any_status[where msg = "audit_msg ''core'' ''@rev'' ''PASS''" and k = "''core''"
        and co = demo and cmp = ?core] core
    by (simp add: audit_msg_def)
  have b: "map_of (components (state ?b)) ''core'' = Some ?ub"
    using audit_any_status[where msg = "audit_msg ''core'' ''@rev'' ''FAIL''" and k = "''core''"
        and co = demo and cmp = ?core] core cfg
    by (simp add: audit_msg_def pending_component_def)
  have c: "map_of (components (state (handleMessage ?b ''PROGRESS core 50%'' ''@ann'' 1005))) ''core''
     = Some ?ub"
    using audit_any_status[where k = "''core''" and co = ?b and cmp = ?ub
        and content = "''PROGRESS core 50%''" and a = "''@ann''" and now = 1005] b parse
    by (simp add: pending_component_def)
  have d: "map_of (components (state (checkTimeouts ?b 1000000000))) ''core'' = Some ?ub"
    using audit_any_status[where k = "''core''" and co = ?b and cmp = ?ub and now = 1000000000] b
    by (simp add: pending_component_def)
  have e: "map_of (components (state (checkTimeouts ?s 700000))) ''core''
     = Some ((pending_component ''Core'' [])\<lparr>retryCount := 1\<rparr>)"
    using audit_any_status[where k = "''core''" and co = ?s and cmp = ?stale and t = 1002
        and now = 700000] stale cfg
    by (simp add: pending_component_def)
  show ?thesis using a b c d e by simp
qed

text \<open>
  The sweep can affect a building component without assignee: after CLAIM, PROGRESS and
  ABORT the component keeps its lastProgress, AUDIT FAIL then makes it building with no
  assignee, and a sweep past the progress timeout releases it and sends TIMEOUT.
\<close>

theorem unassigned_building_counterexample:
  "map_option status (component_of
      (run demo [Message ''CLAIM core'' ''@ann'' 1001, Message ''PROGRESS core 50%'' ''@ann'' 1002,
         Message ''ABORT core'' ''@ann'' 1003, Message ''AUDIT core FAIL'' ''@rev'' 1004]) ''core'')
     = Some Building
   \<and> map_option assignee (component_of
      (run demo [Message ''CLAIM core'' ''@ann'' 1001, Message ''PROGRESS core 50%'' ''@ann'' 1002,
         Message ''ABORT core'' ''@ann'' 1003, Message ''AUDIT core FAIL'' ''@rev'' 1004]) ''core'')
     = Some None
   \<and> map_option status (component_of
      (run demo [Message ''CLAIM core'' ''@ann'' 1001, Message ''PROGRESS core 50%'' ''@ann'' 1002,
         Message ''ABORT core'' ''@ann'' 1003, Message ''AUDIT core FAIL'' ''@rev'' 1004,
         Sweep 700000]) ''core'')
     = Some Pending
   \<and> sent (run demo [Message ''CLAIM core'' ''@ann'' 1001, Message ''PROGRESS core 50%'' ''@ann'' 1002,
         Message ''ABORT core'' ''@ann'' 1003, Message ''AUDIT core FAIL'' ''@rev'' 1004,
         Sweep 700000])
     = [''ACK core @ann'', ''TASKS spec'' @ [CHR 0x0A] @ ''Available components: Core'',
        ''TIMEOUT Core'']"
  by code_simp

section \<open>The verdict token and bold markers\<close>

text \<open>
  C4. The pattern for AUDIT accepts the verdict in any letter case and captures it as
  written; \<open>handleAudit\<close> compares the capture with the upper-case \<open>PASS\<close> only. So
  \<open>AUDIT core pass\<close> on a component that is ready counts as a failed audit (status
  building, retry count 1, nothing sent), where \<open>AUDIT core PASS\<close> merges the component
  and sends MERGED and TASKS.
\<close>

theorem audit_lowercase_pass:
  "parseMessage ''AUDIT core pass'' ''@rev'' = Some (audit_msg ''core'' ''@rev'' ''pass'')
   \<and> map_option status (component_of
        (run demo [Message ''CLAIM core'' ''@ann'' 1001, Message ''READY core pr-1'' ''@ann'' 1002,
           Message ''AUDIT core pass'' ''@rev'' 1003]) ''core'') = Some Building
   \<and> map_option retryCount (component_of
        (run demo [Message ''CLAIM core'' ''@ann'' 1001, Message ''READY core pr-1'' ''@ann'' 1002,
           Message ''AUDIT core pass'' ''@rev'' 1003]) ''core'') = Some 1
   \<and> sent (run demo [Message ''CLAIM core'' ''@ann'' 1001, Message ''READY core pr-1'' ''@ann'' 1002,
           Message ''AUDIT core pass'' ''@rev'' 1003]) = [''ACK core @ann'']
   \<and> map_option status (component_of
        (run demo [Message ''CLAIM core'' ''@ann'' 1001, Message ''READY core pr-1'' ''@ann'' 1002,
           Message ''AUDIT core PASS'' ''@rev'' 1003]) ''core'') = Some Merged
   \<and> sent (run demo [Message ''CLAIM core'' ''@ann'' 1001, Message ''READY core pr-1'' ''@ann'' 1002,
           Message ''AUDIT core PASS'' ''@rev'' 1003])
       = [''ACK core @ann'', ''MERGED core'',
          ''TASKS spec'' @ [CHR 0x0A] @ ''Available components: Api'']"
  by code_simp

text \<open>
  C8. Bold markers are not stripped for every command. Around the whole line, the
  closing marker ends up inside the last captured field of CLAIM, ABORT, READY and
  BLOCKED (the greedy capture takes it), so that \<open>**CLAIM core**\<close> claims a component
  named \<open>core**\<close> and is rejected; around the keyword alone, the line matches no
  pattern. PROGRESS and AUDIT, whose last captured field cannot take the markers, parse
  as their plain form when the whole line is wrapped.
\<close>

theorem bold_not_stripped:
  "parseMessage ''CLAIM core'' ''@ann'' = Some (claim_msg ''core'' ''@ann'')
   \<and> parseMessage ''**CLAIM core**'' ''@ann'' = Some (claim_msg ''core**'' ''@ann'')
   \<and> parseMessage ''**CLAIM** core'' ''@ann'' = None
   \<and> parseMessage ''ABORT core'' ''@ann'' = Some (abort_msg ''core'' ''@ann'')
   \<and> parseMessage ''**ABORT core**'' ''@ann'' = Some (abort_msg ''core**'' ''@ann'')
   \<and> parseMessage ''**ABORT** core'' ''@ann'' = None
   \<and> map_option msg_value (parseMessage ''READY core pr-1'' ''@ann'') = Some (Some ''pr-1'')
   \<and> map_option msg_value (parseMessage ''**READY core pr-1**'' ''@ann'') = Some (Some ''pr-1**'')
   \<and> map_option msg_value (parseMessage ''BLOCKED api core'' ''@ann'') = Some (Some ''core'')
   \<and> map_option msg_value (parseMessage ''**BLOCKED api core**'' ''@ann'') = Some (Some ''core**'')
   \<and> parseMessage ''**PROGRESS core 50%**'' ''@ann'' = parseMessage ''PROGRESS core 50%'' ''@ann''
   \<and> parseMessage ''**AUDIT core PASS**'' ''@ann'' = parseMessage ''AUDIT core PASS'' ''@ann''
   \<and> sent (run demo [Message ''**CLAIM core**'' ''@ann'' 1001])
       = [''REJECT core** \"component not found\"'']"
  by code_simp

section \<open>The claimable components\<close>

text \<open>
  No call changes the keys of the registry, their order, or a component's display name:
  handlers assign to fields of an object found under its key, and the sweep visits the
  values in place.
\<close>

lemma layout_map_set:
  "map_of m k = Some v' \<Longrightarrow> name v = name v' \<Longrightarrow>
   map (\<lambda>(k, c). (k, name c)) (map_set m k v) = map (\<lambda>(k, c). (k, name c)) m"
  by (induction m k v rule: map_set.induct) (auto split: if_splits)

lemma layout_state: "state co' = state co \<Longrightarrow> layout co' = layout co"
  by (simp add: layout_def)

lemma layout_put:
  "map_get (components (state co)) key = Some c \<Longrightarrow> name c' = name c \<Longrightarrow>
   layout (put co key c') = layout co"
  by (cases key) (auto simp: layout_def map_get_def components_put layout_map_set)

lemma handleClaim_layout: "layout (handleClaim co msg now) = layout co"
  by (auto simp: handleClaim_def layout_state[OF state_sendMessage] layout_put
      split: option.splits)

lemma handleProgress_layout: "layout (handleProgress co msg now) = layout co"
  by (auto simp: handleProgress_def layout_put split: option.splits)

lemma handleReady_layout: "layout (handleReady co msg) = layout co"
  by (auto simp: handleReady_def layout_put split: option.splits)

lemma handleBlocked_layout: "layout (handleBlocked co msg) = layout co"
  by (simp add: handleBlocked_def layout_def)

lemma handleAbort_layout: "layout (handleAbort co msg) = layout co"
  by (auto simp: handleAbort_def layout_state[OF state_broadcastTasks] layout_put
      split: option.splits)

lemma handleAudit_layout: "layout (handleAudit co msg) = layout co"
  by (auto simp: handleAudit_def Let_def layout_state[OF state_sendMessage]
      layout_state[OF state_broadcastTasks] layout_put split: option.splits)

lemma handleMessage_layout: "layout (handleMessage co content a now) = layout co"
proof (cases "parseMessage content a")
  case None
  then show ?thesis by (simp add: handleMessage_def)
next
  case (Some p)
  then show ?thesis
    by (cases "msg_type p")
       (simp_all add: handleMessage_def handleClaim_layout handleProgress_layout
          handleReady_layout handleBlocked_layout handleAbort_layout handleAudit_layout)
qed

lemma name_sweep: "name (fst (sweep_component cfg now c)) = name c"
  by (simp add: fst_sweep_component check_claim_def check_progress_def split: option.splits)

lemma checkTimeouts_layout: "layout (checkTimeouts co now) = layout co"
  by (simp add: layout_def components_checkTimeouts name_sweep case_prod_beta)

lemma step_layout: "layout (step co e) = layout co"
  by (cases e)
     (simp_all add: handleMessage_layout checkTimeouts_layout layout_state[OF state_broadcastTasks])

lemma run_layout: "layout (run co evs) = layout co"
  unfolding run_def by (induction evs arbitrary: co) (simp_all add: step_layout)

lemma layout_keys: "map fst (components (state co)) = map fst (layout co)"
  by (simp add: layout_def case_prod_beta)

lemma layout_names: "map name (map snd (components (state co))) = map snd (layout co)"
  by (simp add: layout_def case_prod_beta comp_def)

text \<open>
  C6. \<open>getAvailableComponents\<close> returns exactly the components that are pending and
  whose every dependency names an existing component of status merged, in the order of
  the registry; a component with a dependency that names no component is never in the
  list, whatever the other components' states. The order of the registry is the order
  of construction and stays so: no sequence of messages, sweeps and broadcasts changes
  the keys or the names or their order, and a registry built from a list whose
  lower-cased names are distinct holds the components in the order given, at
  construction and after every such sequence.
\<close>

theorem available_exactly:
  "getAvailableComponents co =
     filter (\<lambda>c. status c = Pending \<and>
                 (\<forall>d \<in> set (dependencies c).
                    \<exists>dep. map_of (components (state co)) d = Some dep \<and> status dep = Merged))
       (map snd (components (state co)))
   \<and> (d \<in> set (dependencies c) \<and> map_of (components (state co)) d = None \<longrightarrow>
        c \<notin> set (getAvailableComponents co))
   \<and> map fst (components (state (run co evs))) = map fst (components (state co))
   \<and> map name (map snd (components (state (run co evs)))) =
       map name (map snd (components (state co)))
   \<and> (distinct (map (\<lambda>c. toLowerCase (fst c)) comps) \<longrightarrow>
        map fst (components (state (constructor url comps cfg t0))) =
          map (\<lambda>c. toLowerCase (fst c)) comps \<and>
        map name (map snd (components (state (constructor url comps cfg t0)))) = map fst comps \<and>
        map fst (components (state (run (constructor url comps cfg t0) evs))) =
          map (\<lambda>c. toLowerCase (fst c)) comps \<and>
        map name (map snd (components (state (run (constructor url comps cfg t0) evs)))) =
          map fst comps)"
proof -
  have eq: "getAvailableComponents co =
     filter (\<lambda>c. status c = Pending \<and>
                 (\<forall>d \<in> set (dependencies c).
                    \<exists>dep. map_of (components (state co)) d = Some dep \<and> status dep = Merged))
       (map snd (components (state co)))"
    by (simp add: getAvailableComponents_def available_loop_filter map_values_def
          dependenciesMet_def deps_loop_iff)
  have closed: "c \<notin> set (getAvailableComponents co)"
    if "d \<in> set (dependencies c)" "map_of (components (state co)) d = None"
    using that unfolding eq by fastforce
  have keys: "map fst (components (state (run co' evs))) = map fst (components (state co'))" for co'
    by (simp only: layout_keys run_layout)
  have names: "map name (map snd (components (state (run co' evs)))) =
       map name (map snd (components (state co')))" for co'
    by (simp only: layout_names run_layout)
  have order: "map fst (components (state (constructor url comps cfg t0))) =
          map (\<lambda>c. toLowerCase (fst c)) comps \<and>
        map name (map snd (components (state (constructor url comps cfg t0)))) = map fst comps"
    if "distinct (map (\<lambda>c. toLowerCase (fst c)) comps)"
    using init_components_distinct[OF that, of "[]"]
    by (simp add: constructor_def comp_def new_component_def)
  show ?thesis using eq closed order keys names by simp
qed

theorem available_exactly_witness:
  "getAvailableComponents demo = [pending_component ''Core'' []]
   \<and> pending_component ''Ghost'' [''nowhere''] \<notin> set (getAvailableComponents demo)
   \<and> map name (map snd (components (state demo))) = [''Core'', ''Api'', ''Ghost'']
   \<and> map name (getAvailableComponents
        (run demo4 [Message ''CLAIM core'' ''@ann'' 1001, Message ''AUDIT core PASS'' ''@rev'' 1002,
           Message ''CLAIM cli'' ''@bob'' 1003, Message ''ABORT cli'' ''@bob'' 1004,
           Message ''CLAIM api'' ''@ann'' 1005, Message ''ABORT api'' ''@ann'' 1006]))
       = [''Api'', ''Cli'']
   \<and> map fst (components (state
        (run demo4 [Message ''CLAIM core'' ''@ann'' 1001, Message ''AUDIT core PASS'' ''@rev'' 1002,
           Message ''CLAIM cli'' ''@bob'' 1003, Message ''ABORT cli'' ''@bob'' 1004,
           Message ''CLAIM api'' ''@ann'' 1005, Message ''ABORT api'' ''@ann'' 1006])))
       = [''core'', ''api'', ''cli'', ''ghost'']
   \<and> map name (map snd (components (state
        (run demo4 [Message ''CLAIM core'' ''@ann'' 1001, Message ''AUDIT core PASS'' ''@rev'' 1002,
           Message ''CLAIM cli'' ''@bob'' 1003, Message ''ABORT cli'' ''@bob'' 1004,
           Message ''CLAIM api'' ''@ann'' 1005, Message ''ABORT api'' ''@ann'' 1006]))))
       = [''Core'', ''Api'', ''Cli'', ''Ghost'']"
proof -
  let ?comps = "[(''Core'', []), (''Api'', [''Core'']), (''Ghost'', [''Nowhere''])]"
  let ?comps4 = "[(''Core'', []), (''Api'', [''Core'']), (''Cli'', [''Core'']),
      (''Ghost'', [''Nowhere''])]"
  let ?evs = "[Message ''CLAIM core'' ''@ann'' 1001, Message ''AUDIT core PASS'' ''@rev'' 1002,
           Message ''CLAIM cli'' ''@bob'' 1003, Message ''ABORT cli'' ''@bob'' 1004,
           Message ''CLAIM api'' ''@ann'' 1005, Message ''ABORT api'' ''@ann'' 1006]"
  have dist: "distinct (map (\<lambda>c. toLowerCase (fst c)) ?comps)"
    by code_simp
  have dist4: "distinct (map (\<lambda>c. toLowerCase (fst c)) ?comps4)"
    by code_simp
  have low4: "map (\<lambda>c. toLowerCase (fst c)) ?comps4 = [''core'', ''api'', ''cli'', ''ghost'']"
    by code_simp
  have st4: "map (\<lambda>(k, c). (k, status c, dependencies c)) (components (state (run demo4 ?evs))) =
      [(''core'', Merged, []), (''api'', Pending, [''core'']), (''cli'', Pending, [''core'']),
       (''ghost'', Pending, [''nowhere''])]"
    by code_simp
  note inst = available_exactly[where co = demo and d = "''nowhere''"
      and c = "pending_component ''Ghost'' [''nowhere'']" and comps = ?comps
      and url = "''spec''" and cfg = no_overrides and ?t0.0 = 1000]
  note inst4 = available_exactly[where co = "run demo4 ?evs" and evs = ?evs and comps = ?comps4
      and url = "''spec''" and cfg = no_overrides and ?t0.0 = 1000, folded demo4_def]
  have a: "getAvailableComponents demo = [pending_component ''Core'' []]"
    using inst by (simp add: demo_components pending_component_def)
  have b: "pending_component ''Ghost'' [''nowhere''] \<notin> set (getAvailableComponents demo)"
    using inst by (simp add: demo_components pending_component_def)
  have c: "map name (map snd (components (state demo))) = [''Core'', ''Api'', ''Ghost'']"
    using inst dist unfolding demo_def by simp
  have e: "map fst (components (state (run demo4 ?evs))) = [''core'', ''api'', ''cli'', ''ghost'']"
    using inst4 dist4 low4 by simp
  have f: "map name (map snd (components (state (run demo4 ?evs)))) =
      [''Core'', ''Api'', ''Cli'', ''Ghost'']"
    using inst4 dist4 by simp
  obtain x1 x2 x3 x4 where comps: "components (state (run demo4 ?evs)) =
      [(''core'', x1), (''api'', x2), (''cli'', x3), (''ghost'', x4)]"
    and st: "status x1 = Merged" "status x2 = Pending" "status x3 = Pending" "status x4 = Pending"
    and deps: "dependencies x2 = [''core'']" "dependencies x3 = [''core'']"
      "dependencies x4 = [''nowhere'']"
    using st4 by (auto simp: map_eq_Cons_conv)
  have nm: "name x2 = ''Api''" "name x3 = ''Cli''"
    using f comps by simp_all
  have d: "map name (getAvailableComponents (run demo4 ?evs)) = [''Api'', ''Cli'']"
    using inst4 by (simp add: comps st deps nm)
  show ?thesis using a b c d e f by simp
qed

end
